theory Spec2Isabelle
  imports Main "HOL-Library.Sublist"
begin

section \<open>Python values used by both services\<close>

text \<open>
  Python strings are modelled as \<^typ>\<open>string\<close>. \<open>str.lower()\<close> is modelled on the ASCII
  letters, which is where every marker of the offline classifier lives.
\<close>

definition lower_char :: "char \<Rightarrow> char" where
  "lower_char c =
     (let n = (of_char c :: nat) in if 65 \<le> n \<and> n \<le> 90 then char_of (n + 32) else c)"

definition lower :: "string \<Rightarrow> string" where
  "lower s = map lower_char s"

text \<open>\<open>s in t\<close> on strings: some suffix of \<open>t\<close> starts with \<open>s\<close>.\<close>

fun starts_with :: "string \<Rightarrow> string \<Rightarrow> bool" where
  "starts_with [] t = True"
| "starts_with (c # s) [] = False"
| "starts_with (c # s) (d # t) = (c = d \<and> starts_with s t)"

fun str_in :: "string \<Rightarrow> string \<Rightarrow> bool" where
  "str_in s [] = (s = [])"
| "str_in s (d # t) = (starts_with s (d # t) \<or> str_in s t)"

text \<open>\<open>str(n)\<close> for an integer, used by \<open>str(port)\<close> and the f-string \<open>HTTP {status}\<close>.\<close>

fun str_nat :: "nat \<Rightarrow> string" where
  "str_nat n =
     (if n < 10 then [char_of (48 + n)] else str_nat (n div 10) @ [char_of (48 + n mod 10)])"

declare str_nat.simps [simp del]

definition str_int :: "int \<Rightarrow> string" where
  "str_int i = (if i < 0 then CHR ''-'' # str_nat (nat (- i)) else str_nat (nat i))"

text \<open>\<open>sep.join(xs)\<close> and \<open>s.split(sep)\<close> for a one-character separator.\<close>

fun join :: "string \<Rightarrow> string list \<Rightarrow> string" where
  "join sep [] = []"
| "join sep [x] = x"
| "join sep (x # y # ys) = x @ sep @ join sep (y # ys)"

fun split :: "char \<Rightarrow> string \<Rightarrow> string list" where
  "split sep [] = [[]]"
| "split sep (c # cs) =
     (if c = sep then [] # split sep cs
      else (case split sep cs of [] \<Rightarrow> [[c]] | x # xs \<Rightarrow> (c # x) # xs))"

text \<open>\<open>s.strip()\<close>: whitespace is removed at both ends (the ASCII whitespace of \<open>str\<close>).\<close>

definition is_space :: "char \<Rightarrow> bool" where
  "is_space c = ((of_char c :: nat) \<in> {9, 10, 11, 12, 13, 28, 29, 30, 31, 32})"

definition strip :: "string \<Rightarrow> string" where
  "strip s = rev (dropWhile is_space (rev (dropWhile is_space s)))"

text \<open>
  \<open>urllib.parse.quote(s)\<close> with its default \<open>safe='/'\<close>: letters, digits and \<open>_.-~/\<close>
  are kept, every other byte becomes \<open>%XX\<close>.
\<close>

definition hex_digit :: "nat \<Rightarrow> char" where
  "hex_digit d = (if d < 10 then char_of (48 + d) else char_of (55 + d))"

definition quote_char :: "char \<Rightarrow> string" where
  "quote_char c =
     (let n = (of_char c :: nat) in
      if (48 \<le> n \<and> n \<le> 57) \<or> (65 \<le> n \<and> n \<le> 90) \<or> (97 \<le> n \<and> n \<le> 122)
         \<or> c \<in> set ''_.-~/''
      then [c] else [CHR ''%'', hex_digit (n div 16), hex_digit (n mod 16)])"

definition quote :: "string \<Rightarrow> string" where
  "quote s = concat (map quote_char s)"

subsection \<open>Exceptions\<close>

text \<open>
  An exception is its class name and its \<open>str(e)\<close>. Every exception of the model is a
  subclass of \<open>Exception\<close>; \<open>KeyboardInterrupt\<close>, \<open>SystemExit\<close> and task cancellation,
  which no handler of these services catches, are outside the model.
\<close>

datatype py_exception = PyException (exc_class: string) (exc_str: string)

subsection \<open>JSON values as \<open>response.json()\<close> returns them\<close>

datatype py_float = Float int int | Inf bool | NaN

datatype json =
    JNull
  | JBool bool
  | JInt int
  | JFloat py_float
  | JStr string
  | JList "json list"
  | JDict "(string \<times> json) list"

text \<open>
  A dict is the list of its items, each key once; a key is looked up with \<^const>\<open>map_of\<close>.
\<close>

text \<open>Truth value of a Python object, as \<open>if s\<close> in a comprehension tests it.\<close>

fun truthy :: "json \<Rightarrow> bool" where
  "truthy JNull = False"
| "truthy (JBool b) = b"
| "truthy (JInt i) = (i \<noteq> 0)"
| "truthy (JFloat f) = (case f of Float m e \<Rightarrow> m \<noteq> 0 | _ \<Rightarrow> True)"
| "truthy (JStr s) = (s \<noteq> [])"
| "truthy (JList xs) = (xs \<noteq> [])"
| "truthy (JDict kvs) = (kvs \<noteq> [])"

text \<open>\<open>key in obj\<close>, \<open>obj[key]\<close> and iteration, for a string key and a decoded JSON value.\<close>

fun py_contains :: "string \<Rightarrow> json \<Rightarrow> py_exception + bool" where
  "py_contains k (JDict kvs) = Inr (k \<in> fst ` set kvs)"
| "py_contains k (JList xs) = Inr (JStr k \<in> set xs)"
| "py_contains k (JStr s) = Inr (str_in k s)"
| "py_contains k _ = Inl (PyException ''TypeError'' ''argument is not iterable'')"

fun py_getitem :: "json \<Rightarrow> string \<Rightarrow> py_exception + json" where
  "py_getitem (JDict kvs) k =
     (case map_of kvs k of None \<Rightarrow> Inl (PyException ''KeyError'' k) | Some v \<Rightarrow> Inr v)"
| "py_getitem _ k = Inl (PyException ''TypeError'' ''indices must be integers'')"

fun py_iter :: "json \<Rightarrow> py_exception + json list" where
  "py_iter (JList xs) = Inr xs"
| "py_iter (JStr s) = Inr (map (\<lambda>c. JStr [c]) s)"
| "py_iter (JDict kvs) = Inr (map (JStr \<circ> fst) kvs)"
| "py_iter _ = Inl (PyException ''TypeError'' ''object is not iterable'')"

text \<open>\<open>obj.get(key, default)\<close>: only a dict has the method.\<close>

fun py_get :: "json \<Rightarrow> string \<Rightarrow> json \<Rightarrow> py_exception + json" where
  "py_get (JDict kvs) k d = Inr (case map_of kvs k of None \<Rightarrow> d | Some v \<Rightarrow> v)"
| "py_get _ k d = Inl (PyException ''AttributeError'' ''object has no attribute get'')"

subsection \<open>\<open>pathlib\<close> on POSIX\<close>

text \<open>
  \<open>Path(s)\<close> keeps a root (\<open>/\<close>, or \<open>//\<close> for exactly two leading slashes) and the
  components that are neither empty nor \<open>.\<close>; \<open>str(path)\<close> joins them again, and is
  \<open>.\<close> for the empty path.
\<close>

datatype path = Path (root: string) (parts: "string list")

definition parse_path :: "string \<Rightarrow> path" where
  "parse_path s =
     Path (if take 1 s \<noteq> ''/'' then []
           else if take 1 (drop 1 s) \<noteq> ''/'' \<or> take 1 (drop 2 s) = ''/'' then ''/''
           else ''//'')
          (filter (\<lambda>x. x \<noteq> [] \<and> x \<noteq> ''.'') (split CHR ''/'' s))"

definition path_str :: "path \<Rightarrow> string" where
  "path_str p = (let s = root p @ join ''/'' (parts p) in if s = [] then ''.'' else s)"

text \<open>\<open>p / seg\<close>: an absolute segment replaces \<open>p\<close>.\<close>

definition path_div :: "path \<Rightarrow> string \<Rightarrow> path" where
  "path_div p seg =
     (let q = parse_path seg in if root q \<noteq> [] then q else Path (root p) (parts p @ parts q))"

section \<open>The environment of the services\<close>

text \<open>A subprocess handle is its pid; a \<open>datetime\<close> is represented by its \<open>isoformat()\<close>.\<close>

datatype popen = Popen (pid: int)

type_synonym datetime = string

record http_response =
  status_code :: int
  text_body :: string
  json_body :: "py_exception + json"

text \<open>What the services do to the outside world, in order.\<close>

datatype event =
    PathHome
  | PathExists string
  | SubprocessRun "string list" nat
  | Spawn "string list"
  | Sleep nat
  | HttpGet string nat
  | Terminate popen
  | Wait popen nat
  | Kill popen

text \<open>
  What the outside world answers. \<open>poll\<close> is the subprocess as a call finds it on entry
  (\<open>None\<close> while it is alive, its return code afterwards); \<open>poll_iter i\<close> and \<open>probe i\<close>
  are what iteration \<open>i\<close> of the readiness loop observes after its sleep. \<open>home\<close> is
  \<open>Path.home()\<close>, which raises when the home directory cannot be determined, and
  \<open>exists_path p\<close> is \<open>Path(p).exists()\<close>, which raises the errors of \<open>stat\<close> other than
  a missing path (a directory that may not be searched, a name that is too long).
\<close>

record environment =
  home :: "py_exception + string"
  exists_path :: "string \<Rightarrow> py_exception + bool"
  subprocess_run :: "string list \<Rightarrow> py_exception + int \<times> string"
  subprocess_Popen :: "string list \<Rightarrow> py_exception + popen"
  utcnow :: datetime
  poll :: "popen \<Rightarrow> int option"
  poll_iter :: "nat \<Rightarrow> popen \<Rightarrow> int option"
  probe :: "nat \<Rightarrow> string \<Rightarrow> py_exception + http_response"
  terminate :: "popen \<Rightarrow> py_exception + unit"
  wait :: "popen \<Rightarrow> nat \<Rightarrow> py_exception + int"
  kill :: "popen \<Rightarrow> py_exception + unit"
  http_get :: "string \<Rightarrow> py_exception + http_response"

text \<open>The fields of \<open>Settings\<close> that the two services read.\<close>

record settings =
  soco_cli_executable_path :: "string option"
  soco_cli_port :: int
  macros_file_path :: string
  soco_cli_use_local_cache :: bool
  soco_cli_url :: string

section \<open>soco\_cli\_service.py: the process supervisor\<close>

record soco_cli_service =
  process :: "popen option"
  started_at :: "datetime option"
  is_starting :: bool

text \<open>\<open>__init__\<close>.\<close>

definition init_service :: soco_cli_service where
  "init_service = \<lparr>process = None, started_at = None, is_starting = False\<rparr>"

definition server_url :: "settings \<Rightarrow> string" where
  "server_url cfg = soco_cli_url cfg"

text \<open>\<open>is_running\<close>, given what \<open>poll()\<close> answers at that moment.\<close>

definition is_running :: "(popen \<Rightarrow> int option) \<Rightarrow> soco_cli_service \<Rightarrow> bool" where
  "is_running pl s = (case process s of None \<Rightarrow> False | Some p \<Rightarrow> pl p = None)"

subsection \<open>Resolving the executable\<close>

text \<open>The \<open>try\<close> block of \<open>_resolve_from_path\<close>; falling out of it is \<open>Inr None\<close>.\<close>

definition resolve_from_path_try ::
  "environment \<Rightarrow> string \<Rightarrow> (py_exception + string option) \<times> event list" where
  "resolve_from_path_try env command =
     (let argv = [''which'', command] in
      case subprocess_run env argv of
        Inl e \<Rightarrow> (Inl e, [SubprocessRun argv 5])
      | Inr (returncode, stdout) \<Rightarrow>
          if returncode = 0 then
            (let p = strip stdout in
             if p = [] then (Inr None, [SubprocessRun argv 5])
             else
               (case exists_path env (path_str (parse_path p)) of
                  Inl e \<Rightarrow>
                    (Inl e, [SubprocessRun argv 5, PathExists (path_str (parse_path p))])
                | Inr found \<Rightarrow>
                    (Inr (if found then Some p else None),
                     [SubprocessRun argv 5, PathExists (path_str (parse_path p))])))
          else (Inr None, [SubprocessRun argv 5]))"

text \<open>\<open>except Exception\<close>: logged, then \<open>return None\<close>.\<close>

definition resolve_from_path :: "environment \<Rightarrow> string \<Rightarrow> string option \<times> event list" where
  "resolve_from_path env command =
     (case resolve_from_path_try env command of
        (Inl e, evs) \<Rightarrow> (None, evs)
      | (Inr r, evs) \<Rightarrow> (r, evs))"

definition common_users :: "string list" where
  "common_users = [''danmc'', ''pi'', ''sonos'']"

text \<open>
  The list \<open>possible_paths\<close> that \<open>_get_executable_path\<close> builds from the home
  directory \<open>h\<close>. \<open>Path.home()\<close> is a path object, which is always true in
  \<open>if home_dir\<close>.
\<close>

definition possible_paths :: "string \<Rightarrow> string list" where
  "possible_paths h =
     (let home_dir = parse_path h in
      [path_str (path_div (path_div (path_div home_dir ''.local'') ''bin'')
                   ''sonos-http-api-server''),
       path_str (path_div (path_div (path_div (path_div (path_div (path_div (path_div home_dir
                   ''.local'') ''share'') ''pipx'') ''venvs'') ''soco-cli'') ''bin'')
                   ''sonos-http-api-server'')])
     @ concat (map (\<lambda>user.
         [''/home/'' @ user @ ''/.local/bin/sonos-http-api-server'',
          ''/home/'' @ user @ ''/.local/share/pipx/venvs/soco-cli/bin/sonos-http-api-server''])
         common_users)
     @ [''/usr/local/bin/sonos-http-api-server'', ''/opt/homebrew/bin/sonos-http-api-server'']"

text \<open>
  The loop \<open>for path in possible_paths: if Path(path).exists(): return path\<close>; an
  exception of \<open>exists()\<close> ends it.
\<close>

fun first_existing ::
  "environment \<Rightarrow> string list \<Rightarrow> (py_exception + string option) \<times> event list" where
  "first_existing env [] = (Inr None, [])"
| "first_existing env (p # ps) =
     (let q = path_str (parse_path p) in
      case exists_path env q of
        Inl e \<Rightarrow> (Inl e, [PathExists q])
      | Inr found \<Rightarrow>
          if found then (Inr (Some p), [PathExists q])
          else (case first_existing env ps of (r, evs) \<Rightarrow> (r, PathExists q # evs)))"

text \<open>
  \<open>_get_executable_path\<close> after the configured path: the well-known locations, then
  \<open>which\<close>, then the bare command name. Nothing here catches an exception of
  \<open>Path.home()\<close> or of \<open>exists()\<close> in the loop.
\<close>

definition get_executable_path_search ::
  "environment \<Rightarrow> (py_exception + string) \<times> event list" where
  "get_executable_path_search env =
     (case home env of
        Inl e \<Rightarrow> (Inl e, [PathHome])
      | Inr h \<Rightarrow>
          (case first_existing env (possible_paths h) of
             (Inl e, evs) \<Rightarrow> (Inl e, PathHome # evs)
           | (Inr (Some p), evs) \<Rightarrow> (Inr p, PathHome # evs)
           | (Inr None, evs) \<Rightarrow>
               (case resolve_from_path env ''sonos-http-api-server'' of
                  (Some resolved, evs') \<Rightarrow> (Inr resolved, PathHome # evs @ evs')
                | (None, evs') \<Rightarrow> (Inr ''sonos-http-api-server'', PathHome # evs @ evs'))))"

definition get_executable_path ::
  "settings \<Rightarrow> environment \<Rightarrow> (py_exception + string) \<times> event list" where
  "get_executable_path cfg env =
     (case soco_cli_executable_path cfg of
        None \<Rightarrow> get_executable_path_search env
      | Some c \<Rightarrow>
          if c = [] then get_executable_path_search env
          else
            (let p = parse_path c in
             case exists_path env (path_str p) of
               Inl e \<Rightarrow> (Inl e, [PathExists (path_str p)])
             | Inr found \<Rightarrow>
                 if found then (Inr (path_str p), [PathExists (path_str p)])
                 else (case get_executable_path_search env of
                         (r, evs) \<Rightarrow> (r, PathExists (path_str p) # evs))))"

subsection \<open>Status\<close>

record server_status =
  isRunning :: bool
  processId :: "int option"
  serverUrl :: "string option"
  startedAt :: "string option"

text \<open>\<open>get_status\<close> returns the dict and leaves the service as it is.\<close>

definition get_status ::
  "settings \<Rightarrow> (popen \<Rightarrow> int option) \<Rightarrow> soco_cli_service \<Rightarrow> server_status \<times> soco_cli_service" where
  "get_status cfg pl s =
     (\<lparr>isRunning = is_running pl s,
       processId = (case process s of Some p \<Rightarrow> Some (pid p) | None \<Rightarrow> None),
       serverUrl = (if is_running pl s then Some (server_url cfg) else None),
       startedAt = (case started_at s of Some t \<Rightarrow> Some t | None \<Rightarrow> None)\<rparr>, s)"

subsection \<open>Start\<close>

text \<open>
  The readiness loop \<open>for i in range(10)\<close>, run on the list of the indices still to do.
  Falling out of the loop is the \<open>return True\<close> after the warning.
\<close>

fun readiness_loop ::
  "settings \<Rightarrow> environment \<Rightarrow> soco_cli_service \<Rightarrow> nat list \<Rightarrow> bool \<times> event list" where
  "readiness_loop cfg env s [] = (True, [])"
| "readiness_loop cfg env s (i # rest) =
     (if \<not> is_running (poll_iter env i) s then (False, [Sleep 1])
      else
        (let url = server_url cfg @ ''/speakers'' in
         case probe env i url of
           Inl e \<Rightarrow>
             (case readiness_loop cfg env s rest of
                (b, evs) \<Rightarrow> (b, Sleep 1 # HttpGet url 2 # evs))
         | Inr response \<Rightarrow>
             if status_code response = 200 then (True, [Sleep 1, HttpGet url 2])
             else (case readiness_loop cfg env s rest of
                     (b, evs) \<Rightarrow> (b, Sleep 1 # HttpGet url 2 # evs))))"

text \<open>The argument vector that \<open>start_server\<close> builds for the executable \<open>exe\<close>.\<close>

definition server_args :: "settings \<Rightarrow> string \<Rightarrow> string list" where
  "server_args cfg exe =
     [exe, ''--port'', str_int (soco_cli_port cfg), ''--macros'', macros_file_path cfg]
     @ (if soco_cli_use_local_cache cfg then [''--use-local-speaker-list''] else [])"

text \<open>The \<open>try\<close> block of \<open>start_server\<close>.\<close>

definition start_server_try ::
  "settings \<Rightarrow> environment \<Rightarrow> soco_cli_service \<Rightarrow>
   (py_exception + bool) \<times> soco_cli_service \<times> event list" where
  "start_server_try cfg env s =
     (case get_executable_path cfg env of
        (Inl e, evs) \<Rightarrow> (Inl e, s, evs)
      | (Inr exe, evs) \<Rightarrow>
          (let args = server_args cfg exe
           in case subprocess_Popen env args of
                Inl e \<Rightarrow> (Inl e, s, evs @ [Spawn args])
              | Inr p \<Rightarrow>
                  (let s' = s\<lparr>process := Some p, started_at := Some (utcnow env)\<rparr> in
                   case readiness_loop cfg env s' [0..<10] of
                     (b, evs') \<Rightarrow> (Inr b, s', evs @ [Spawn args] @ evs'))))"

text \<open>
  \<open>start_server\<close>: the check without the lock, the check under the lock, then the
  \<open>try\<close> block with \<open>except Exception: return False\<close> and
  \<open>finally: self._is_starting = False\<close>.
\<close>

definition start_server ::
  "settings \<Rightarrow> environment \<Rightarrow> soco_cli_service \<Rightarrow> bool \<times> soco_cli_service \<times> event list" where
  "start_server cfg env s =
     (if is_running (poll env) s then (True, s, [])
      else if is_running (poll env) s \<or> is_starting s then (True, s, [])
      else
        (case start_server_try cfg env (s\<lparr>is_starting := True\<rparr>) of
           (Inl e, s', evs) \<Rightarrow> (False, s'\<lparr>is_starting := False\<rparr>, evs)
         | (Inr b, s', evs) \<Rightarrow> (b, s'\<lparr>is_starting := False\<rparr>, evs)))"

definition ensure_server_running ::
  "settings \<Rightarrow> environment \<Rightarrow> soco_cli_service \<Rightarrow> soco_cli_service \<times> event list" where
  "ensure_server_running cfg env s =
     (if \<not> is_running (poll env) s
      then (case start_server cfg env s of (b, s', evs) \<Rightarrow> (s', evs))
      else (s, []))"

subsection \<open>Stop\<close>

text \<open>
  The \<open>try\<close> block of \<open>stop_server\<close> with its two handlers; an exception raised by
  \<open>kill()\<close> inside the \<open>TimeoutExpired\<close> handler is not handled.
\<close>

definition stop_server_try :: "environment \<Rightarrow> popen \<Rightarrow> (py_exception + bool) \<times> event list" where
  "stop_server_try env p =
     (let handler = (\<lambda>e evs.
            if exc_class e = ''TimeoutExpired''
            then (case kill env p of
                    Inl e' \<Rightarrow> (Inl e', evs @ [Kill p])
                  | Inr u \<Rightarrow> (Inr True, evs @ [Kill p]))
            else (Inr False, evs))
      in case terminate env p of
           Inl e \<Rightarrow> handler e [Terminate p]
         | Inr u \<Rightarrow>
             (case wait env p 5 of
                Inl e \<Rightarrow> handler e [Terminate p, Wait p 5]
              | Inr rc \<Rightarrow> (Inr True, [Terminate p, Wait p 5])))"

text \<open>\<open>stop_server\<close>: the early return, else the \<open>try\<close> block and the \<open>finally\<close>.\<close>

definition stop_server ::
  "environment \<Rightarrow> soco_cli_service \<Rightarrow> (py_exception + bool) \<times> soco_cli_service \<times> event list" where
  "stop_server env s =
     (case process s of
        None \<Rightarrow> (Inr True, s, [])
      | Some p \<Rightarrow>
          (case stop_server_try env p of
             (r, evs) \<Rightarrow> (r, s\<lparr>process := None, started_at := None\<rparr>, evs)))"

text \<open>
  The states a service object can be in, as other calls find it. It is created by
  \<open>__init__\<close> and changed only by \<open>start_server\<close> (also through
  \<open>ensure_server_running\<close>) and \<open>stop_server\<close>, in any environment. \<open>start_server\<close> is
  a coroutine: once it has spawned the process it is suspended at the sleep and at the
  probe of every iteration of its readiness loop, with the handle set and
  \<open>_is_starting\<close> true (\<open>suspended\<close>); other calls, the synchronous \<open>stop_server\<close>
  among them, run meanwhile, and whatever they did, the end of the suspended call resets
  \<open>_is_starting\<close> in its \<open>finally\<close> (\<open>resumed\<close>). \<open>start\<close> and \<open>ensure\<close> are the
  calls that no other call interrupts.
\<close>

inductive reachable :: "settings \<Rightarrow> soco_cli_service \<Rightarrow> bool" for cfg :: settings where
  init: "reachable cfg init_service"
| start: "reachable cfg s \<Longrightarrow> reachable cfg (fst (snd (start_server cfg env s)))"
| suspended: "reachable cfg s \<Longrightarrow> \<not> is_running (poll env) s \<Longrightarrow> \<not> is_starting s \<Longrightarrow>
     get_executable_path cfg env = (Inr exe, evs) \<Longrightarrow>
     subprocess_Popen env (server_args cfg exe) = Inr p \<Longrightarrow>
     reachable cfg (s\<lparr>is_starting := True, process := Some p, started_at := Some (utcnow env)\<rparr>)"
| resumed: "reachable cfg s \<Longrightarrow> is_starting s \<Longrightarrow> reachable cfg (s\<lparr>is_starting := False\<rparr>)"
| ensure: "reachable cfg s \<Longrightarrow> reachable cfg (fst (ensure_server_running cfg env s))"
| stop: "reachable cfg s \<Longrightarrow> reachable cfg (fst (snd (stop_server env s)))"

section \<open>sonos\_command\_service.py: the command dispatcher\<close>

record soco_cli_response =
  speaker :: string
  action :: string
  args :: "string list"
  exit_code :: int
  result :: string
  error_msg :: string

definition as_str :: "json \<Rightarrow> string option" where
  "as_str v = (case v of JStr s \<Rightarrow> Some s | _ \<Rightarrow> None)"

definition as_int :: "json \<Rightarrow> int option" where
  "as_int v = (case v of JInt i \<Rightarrow> Some i | _ \<Rightarrow> None)"

fun as_str_list_items :: "json list \<Rightarrow> string list option" where
  "as_str_list_items [] = Some []"
| "as_str_list_items (v # vs) =
     (case as_str v of
        None \<Rightarrow> None
      | Some s \<Rightarrow> (case as_str_list_items vs of None \<Rightarrow> None | Some ss \<Rightarrow> Some (s # ss)))"

definition as_str_list :: "json \<Rightarrow> string list option" where
  "as_str_list v = (case v of JList vs \<Rightarrow> as_str_list_items vs | _ \<Rightarrow> None)"

text \<open>
  Modelled from the spec: the declaration of \<open>SocoCliResponse\<close> (\<open>models/sonos.py\<close>) is
  not among the sources. Its fields and their types are those of the spec's
  \<open>CommandResult\<close> (three strings, a sequence of strings, an integer exit code), \<open>result\<close>
  defaults to the empty string when the keyword is not passed, and a value of another
  type is refused with a validation error.
\<close>

definition SocoCliResponse ::
  "json \<Rightarrow> json \<Rightarrow> json \<Rightarrow> json \<Rightarrow> json option \<Rightarrow> json \<Rightarrow> py_exception + soco_cli_response" where
  "SocoCliResponse spk act argv code res err =
     (case (as_str spk, as_str act, as_str_list argv, as_int code,
            as_str (case res of None \<Rightarrow> JStr [] | Some v \<Rightarrow> v), as_str err) of
        (Some s, Some a, Some xs, Some c, Some r, Some e) \<Rightarrow>
          Inr \<lparr>speaker = s, action = a, args = xs, exit_code = c, result = r, error_msg = e\<rparr>
      | _ \<Rightarrow> Inl (PyException ''ValidationError'' ''validation error for SocoCliResponse''))"

text \<open>Sequencing of statements that may raise.\<close>

definition and_then :: "py_exception + 'a \<Rightarrow> ('a \<Rightarrow> py_exception + 'b) \<Rightarrow> py_exception + 'b" where
  "and_then m f = (case m of Inl e \<Rightarrow> Inl e | Inr x \<Rightarrow> f x)"

text \<open>The service holds the supervisor and the lazily created HTTP client (its timeout).\<close>

record sonos_command_service =
  soco_cli :: soco_cli_service
  client :: "nat option"

definition get_client :: "sonos_command_service \<Rightarrow> nat \<times> sonos_command_service" where
  "get_client svc =
     (case client svc of None \<Rightarrow> (30, svc\<lparr>client := Some 30\<rparr>) | Some c \<Rightarrow> (c, svc))"

subsection \<open>\<open>get_speakers\<close> and \<open>rediscover_speakers\<close>\<close>

definition get_speakers_try ::
  "settings \<Rightarrow> environment \<Rightarrow> sonos_command_service \<Rightarrow>
   (py_exception + json list) \<times> sonos_command_service \<times> event list" where
  "get_speakers_try cfg env svc =
     (case get_client svc of
        (c, svc') \<Rightarrow>
          (let url = server_url cfg @ ''/speakers'' in
           (case http_get env url of
              Inl e \<Rightarrow> Inl e
            | Inr response \<Rightarrow>
                if status_code response \<noteq> 200 then Inr []
                else
                  and_then (json_body response) (\<lambda>res.
                  and_then (py_contains ''speakers'' res) (\<lambda>present.
                    if present then
                      and_then (py_getitem res ''speakers'') (\<lambda>v.
                      and_then (py_iter v) (\<lambda>xs. Inr (filter truthy xs)))
                    else Inr [])),
            svc', [HttpGet url c])))"

definition get_speakers ::
  "settings \<Rightarrow> environment \<Rightarrow> sonos_command_service \<Rightarrow>
   (py_exception + json list) \<times> sonos_command_service \<times> event list" where
  "get_speakers cfg env svc =
     (case ensure_server_running cfg env (soco_cli svc) of
        (s', evs) \<Rightarrow>
          (case get_speakers_try cfg env (svc\<lparr>soco_cli := s'\<rparr>) of
             (Inl e, svc', evs') \<Rightarrow> (Inr [], svc', evs @ evs')
           | (Inr names, svc', evs') \<Rightarrow> (Inr names, svc', evs @ evs')))"

definition rediscover_speakers_try ::
  "settings \<Rightarrow> environment \<Rightarrow> sonos_command_service \<Rightarrow>
   (py_exception + json list) \<times> sonos_command_service \<times> event list" where
  "rediscover_speakers_try cfg env svc =
     (case get_client svc of
        (c, svc') \<Rightarrow>
          (let url = server_url cfg @ ''/rediscover'' in
           (case http_get env url of
              Inl e \<Rightarrow> Inl e
            | Inr response \<Rightarrow>
                if status_code response \<noteq> 200 then Inr []
                else
                  and_then (json_body response) (\<lambda>res.
                  and_then (py_contains ''speakers_discovered'' res) (\<lambda>present.
                    if present then
                      and_then (py_getitem res ''speakers_discovered'') (\<lambda>v.
                      and_then (py_iter v) (\<lambda>xs. Inr (filter truthy xs)))
                    else Inr [])),
            svc', [HttpGet url c])))"

definition rediscover_speakers ::
  "settings \<Rightarrow> environment \<Rightarrow> sonos_command_service \<Rightarrow>
   (py_exception + json list) \<times> sonos_command_service \<times> event list" where
  "rediscover_speakers cfg env svc =
     (case ensure_server_running cfg env (soco_cli svc) of
        (s', evs) \<Rightarrow>
          (case rediscover_speakers_try cfg env (svc\<lparr>soco_cli := s'\<rparr>) of
             (Inl e, svc', evs') \<Rightarrow> (Inr [], svc', evs @ evs')
           | (Inr names, svc', evs') \<Rightarrow> (Inr names, svc', evs @ evs')))"

subsection \<open>\<open>execute_command\<close>\<close>

definition command_url :: "settings \<Rightarrow> string \<Rightarrow> string \<Rightarrow> string list \<Rightarrow> string" where
  "command_url cfg spk act argv =
     (let url = server_url cfg @ ''/'' @ quote spk @ ''/'' @ quote act in
      if argv \<noteq> [] then url @ ''/'' @ join ''/'' (map quote argv) else url)"

definition execute_command_try ::
  "settings \<Rightarrow> environment \<Rightarrow> sonos_command_service \<Rightarrow> string \<Rightarrow> string \<Rightarrow> string list \<Rightarrow>
   (py_exception + soco_cli_response) \<times> sonos_command_service \<times> event list" where
  "execute_command_try cfg env svc spk act argv =
     (case get_client svc of
        (c, svc') \<Rightarrow>
          (let url = command_url cfg spk act argv in
           (case http_get env url of
              Inl e \<Rightarrow> Inl e
            | Inr response \<Rightarrow>
                if status_code response \<noteq> 200 then
                  SocoCliResponse (JStr spk) (JStr act) (JList (map JStr argv))
                    (JInt (status_code response)) None
                    (JStr (''HTTP '' @ str_int (status_code response)))
                else
                  and_then (json_body response) (\<lambda>res.
                  and_then (py_get res ''speaker'' (JStr spk)) (\<lambda>v_speaker.
                  and_then (py_get res ''action'' (JStr act)) (\<lambda>v_action.
                  and_then (py_get res ''args'' (JList (map JStr argv))) (\<lambda>v_args.
                  and_then (py_get res ''exit_code'' (JInt 0)) (\<lambda>v_exit_code.
                  and_then (py_get res ''result'' (JStr [])) (\<lambda>v_result.
                  and_then (py_get res ''error_msg'' (JStr [])) (\<lambda>v_error_msg.
                    SocoCliResponse v_speaker v_action v_args v_exit_code (Some v_result)
                      v_error_msg))))))),
            svc', [HttpGet url c])))"

text \<open>
  \<open>execute_command\<close>: \<open>ensure_server_running\<close>, then the \<open>try\<close> block, whose
  exceptions become a response with exit code \<open>-1\<close>.
\<close>

definition execute_command ::
  "settings \<Rightarrow> environment \<Rightarrow> sonos_command_service \<Rightarrow> string \<Rightarrow> string \<Rightarrow> string list \<Rightarrow>
   (py_exception + soco_cli_response) \<times> sonos_command_service \<times> event list" where
  "execute_command cfg env svc spk act argv =
     (case ensure_server_running cfg env (soco_cli svc) of
        (s', evs) \<Rightarrow>
          (case execute_command_try cfg env (svc\<lparr>soco_cli := s'\<rparr>) spk act argv of
             (Inl e, svc', evs') \<Rightarrow>
               (SocoCliResponse (JStr spk) (JStr act) (JList (map JStr argv)) (JInt (- 1)) None
                  (JStr (exc_str e)), svc', evs @ evs')
           | (Inr r, svc', evs') \<Rightarrow> (Inr r, svc', evs @ evs')))"

section \<open>sonos\_command\_service.py: the offline classifier\<close>

definition offline_markers :: "string list" where
  "offline_markers =
     [''timed out'', ''timeout'', ''connection refused'', ''unreachable'',
      ''no route to host'', ''network is unreachable'', ''connecttimeouterror'',
      ''max retries exceeded'']"

text \<open>
  \<open>_is_timeout_or_connection_error(error_msg: str | None)\<close>: \<open>not error_msg\<close> holds for
  \<open>None\<close> and for the empty string.
\<close>

definition is_timeout_or_connection_error :: "string option \<Rightarrow> bool" where
  "is_timeout_or_connection_error msg =
     (case msg of
        None \<Rightarrow> False
      | Some m \<Rightarrow>
          if m = [] then False
          else let lower_error = lower m in list_ex (\<lambda>s. str_in s lower_error) offline_markers)"

section \<open>Concurrent calls of \<open>execute_command\<close>\<close>

text \<open>
  The calls run as tasks of one event loop: a task runs alone from one \<open>await\<close> to the
  next, so the calls interleave at these points. A call has been made and is in
  \<open>ensure_server_running\<close> (\<open>Called\<close>), waits at \<open>async with self._request_lock\<close>
  (\<open>Waiting\<close>), has entered the block (\<open>Locked\<close>), awaits \<open>client.get(url)\<close>
  (\<open>InFlight\<close>), has its response built, from the answer or in the handler
  (\<open>Recorded\<close>), and has left the block and returned (\<open>Returned\<close>).
\<close>

datatype stage = Called | Waiting | Locked | InFlight | Recorded | Returned

text \<open>
  What the server sees of task \<open>t\<close>: a readiness probe of \<open>start_server\<close>, the request of
  the command, the end of that request (answered or failed).
\<close>

datatype wire_event = Probe nat | Request nat | Response nat

record dispatch =
  stage_of :: "nat \<Rightarrow> stage"
  request_lock :: bool
  wire :: "wire_event list"

definition init_dispatch :: dispatch where
  "init_dispatch = \<lparr>stage_of = (\<lambda>t. Called), request_lock = False, wire = []\<rparr>"

text \<open>
  One step of one task. \<open>asyncio.Lock\<close> is entered only while it is not held and is
  released on leaving the block; an exception before the request (\<open>raise_early\<close>) goes
  to the handler inside the block.
\<close>

inductive step :: "dispatch \<Rightarrow> dispatch \<Rightarrow> bool" where
  probe: "stage_of s t = Called \<Longrightarrow> step s (s\<lparr>wire := wire s @ [Probe t]\<rparr>)"
| ensured: "stage_of s t = Called \<Longrightarrow> step s (s\<lparr>stage_of := (stage_of s)(t := Waiting)\<rparr>)"
| acquire: "stage_of s t = Waiting \<Longrightarrow> \<not> request_lock s \<Longrightarrow>
     step s (s\<lparr>stage_of := (stage_of s)(t := Locked), request_lock := True\<rparr>)"
| issue: "stage_of s t = Locked \<Longrightarrow>
     step s (s\<lparr>stage_of := (stage_of s)(t := InFlight), wire := wire s @ [Request t]\<rparr>)"
| raise_early: "stage_of s t = Locked \<Longrightarrow>
     step s (s\<lparr>stage_of := (stage_of s)(t := Recorded)\<rparr>)"
| complete: "stage_of s t = InFlight \<Longrightarrow>
     step s (s\<lparr>stage_of := (stage_of s)(t := Recorded), wire := wire s @ [Response t]\<rparr>)"
| release: "stage_of s t = Recorded \<Longrightarrow>
     step s (s\<lparr>stage_of := (stage_of s)(t := Returned), request_lock := False\<rparr>)"

inductive dispatching :: "dispatch \<Rightarrow> bool" where
  initial: "dispatching init_dispatch"
| after: "dispatching s \<Longrightarrow> step s s' \<Longrightarrow> dispatching s'"

definition in_lock :: "stage \<Rightarrow> bool" where
  "in_lock st = (st = Locked \<or> st = InFlight \<or> st = Recorded)"

definition is_command :: "wire_event \<Rightarrow> bool" where
  "is_command e = (case e of Probe t \<Rightarrow> False | _ \<Rightarrow> True)"

fun one_at_a_time :: "wire_event list \<Rightarrow> bool" where
  "one_at_a_time [] = True"
| "one_at_a_time [Request t] = True"
| "one_at_a_time (Request t # Response t' # es) = (t = t' \<and> one_at_a_time es)"
| "one_at_a_time es = False"

fun pending :: "wire_event list \<Rightarrow> nat option" where
  "pending [] = None"
| "pending [Request t] = Some t"
| "pending (Request t # Response t' # es) = pending es"
| "pending es = None"

definition dispatch_inv :: "dispatch \<Rightarrow> bool" where
  "dispatch_inv s =
     ((request_lock s \<longleftrightarrow> (\<exists>t. in_lock (stage_of s t))) \<and>
      (\<forall>t t'. in_lock (stage_of s t) \<and> in_lock (stage_of s t') \<longrightarrow> t = t') \<and>
      one_at_a_time (filter is_command (wire s)) \<and>
      (\<forall>t. pending (filter is_command (wire s)) = Some t \<longleftrightarrow> stage_of s t = InFlight))"

text \<open>Task 0 awaits the answer to its request while task 1 waits for the lock.\<close>

definition busy_dispatch :: dispatch where
  "busy_dispatch =
     \<lparr>stage_of = (\<lambda>t. if t = 0 then InFlight else if t = 1 then Waiting else Called),
      request_lock = True, wire = [Request 0]\<rparr>"

section \<open>Vocabulary of the properties\<close>

text \<open>What iteration \<open>i\<close> of the readiness loop observes for the spawned process \<open>p\<close>.\<close>

definition process_alive :: "environment \<Rightarrow> popen \<Rightarrow> nat \<Rightarrow> bool" where
  "process_alive env p i = (poll_iter env i p = None)"

definition probe_ok :: "settings \<Rightarrow> environment \<Rightarrow> nat \<Rightarrow> bool" where
  "probe_ok cfg env i =
     (case probe env i (server_url cfg @ ''/speakers'') of
        Inl e \<Rightarrow> False
      | Inr response \<Rightarrow> status_code response = 200)"

text \<open>The events of one full iteration: the sleep of one second, then the probe.\<close>

definition iteration_events :: "settings \<Rightarrow> event list" where
  "iteration_events cfg = [Sleep 1, HttpGet (server_url cfg @ ''/speakers'') 2]"

text \<open>The handle and its timestamp go together: no timestamp without a handle.\<close>

definition handle_inv :: "soco_cli_service \<Rightarrow> bool" where
  "handle_inv s = (process s = None \<longrightarrow> started_at s = None)"

text \<open>What both functions compute from the answer to their request, for the key they read.\<close>

definition names_of :: "string \<Rightarrow> py_exception + http_response \<Rightarrow> py_exception + json list" where
  "names_of key outcome =
     (case outcome of
        Inl e \<Rightarrow> Inr []
      | Inr response \<Rightarrow>
          if status_code response \<noteq> 200 then Inr []
          else (case json_body response of
                  Inl e \<Rightarrow> Inr []
                | Inr res \<Rightarrow>
                    (case py_contains key res of
                       Inl e \<Rightarrow> Inr []
                     | Inr present \<Rightarrow>
                         if present then
                           (case py_getitem res key of
                              Inl e \<Rightarrow> Inr []
                            | Inr v \<Rightarrow>
                                (case py_iter v of
                                   Inl e \<Rightarrow> Inr []
                                 | Inr xs \<Rightarrow> Inr (filter truthy xs)))
                         else Inr [])))"

text \<open>
  What is claimed of \<open>get_speakers\<close> and \<open>rediscover_speakers\<close>: \<open>r\<close> is what the function
  returns when \<open>outcome\<close> is the answer to its request and \<open>key\<close> the key it reads. The
  empty list is returned when the request raises, on a status other than 200, and when
  decoding the body, the test for the key, the lookup of the key or the iteration over
  its value raises; every other answer gives the truthy entries of the value.
\<close>

definition speaker_list_contract ::
  "string \<Rightarrow> py_exception + http_response \<Rightarrow> py_exception + json list \<Rightarrow> bool" where
  "speaker_list_contract key outcome r =
     ((\<exists>names. r = Inr names \<and> JStr [] \<notin> set names) \<and>
      (\<forall>e. outcome = Inl e \<longrightarrow> r = Inr []) \<and>
      (\<forall>response. outcome = Inr response \<and> status_code response \<noteq> 200 \<longrightarrow> r = Inr []) \<and>
      (\<forall>response e. outcome = Inr response \<and> status_code response = 200 \<and>
          json_body response = Inl e \<longrightarrow> r = Inr []) \<and>
      (\<forall>response res. outcome = Inr response \<and> status_code response = 200 \<and>
          json_body response = Inr res \<and> py_contains key res \<noteq> Inr True \<longrightarrow> r = Inr []) \<and>
      (\<forall>response kvs. outcome = Inr response \<and> status_code response = 200 \<and>
          json_body response = Inr (JDict kvs) \<and> key \<notin> fst ` set kvs \<longrightarrow> r = Inr []) \<and>
      (\<forall>response res e. outcome = Inr response \<and> status_code response = 200 \<and>
          json_body response = Inr res \<and> py_contains key res = Inr True \<and>
          py_getitem res key = Inl e \<longrightarrow> r = Inr []) \<and>
      (\<forall>response res v e. outcome = Inr response \<and> status_code response = 200 \<and>
          json_body response = Inr res \<and> py_contains key res = Inr True \<and>
          py_getitem res key = Inr v \<and> py_iter v = Inl e \<longrightarrow> r = Inr []) \<and>
      (\<forall>response res v xs. outcome = Inr response \<and> status_code response = 200 \<and>
          json_body response = Inr res \<and> py_contains key res = Inr True \<and>
          py_getitem res key = Inr v \<and> py_iter v = Inr xs \<longrightarrow> r = Inr (filter truthy xs)) \<and>
      (\<forall>response kvs xs. outcome = Inr response \<and> status_code response = 200 \<and>
          json_body response = Inr (JDict kvs) \<and> map_of kvs key = Some (JList xs) \<longrightarrow>
          r = Inr (filter truthy xs)) \<and>
      (\<forall>response kvs ns. outcome = Inr response \<and> status_code response = 200 \<and>
          json_body response = Inr (JDict kvs) \<and> map_of kvs key = Some (JList (map JStr ns)) \<longrightarrow>
          r = Inr (map JStr (filter (\<lambda>n. n \<noteq> []) ns))))"

subsection \<open>Sample inputs\<close>

definition sample_settings :: settings where
  "sample_settings =
     \<lparr>soco_cli_executable_path = Some ''/opt//sonos-http-api-server'', soco_cli_port = 8000,
      macros_file_path = ''/data/macros.txt'', soco_cli_use_local_cache = True,
      soco_cli_url = ''http://localhost:8000''\<rparr>"

definition connect_error :: py_exception where
  "connect_error = PyException ''ConnectError'' ''[Errno 111] Connection refused''"

definition speakers_response :: http_response where
  "speakers_response =
     \<lparr>status_code = 200, text_body = ''{\"speakers\": [\"Kitchen\", \"\", \"Den\"]}'',
      json_body = Inr (JDict [(''speakers'', JList [JStr ''Kitchen'', JStr [], JStr ''Den''])])\<rparr>"

definition volume_response :: http_response where
  "volume_response =
     \<lparr>status_code = 200, text_body = ''{\"exit_code\": 0, \"result\": \"25\"}'',
      json_body = Inr (JDict [(''exit_code'', JInt 0), (''result'', JStr ''25'')])\<rparr>"

definition error_response :: http_response where
  "error_response =
     \<lparr>status_code = 500, text_body = ''Internal Server Error'',
      json_body = Inl (PyException ''JSONDecodeError'' ''Expecting value'')\<rparr>"

text \<open>
  A device where every path exists, the spawned server answers its third probe and then
  serves the volume of a speaker.
\<close>

definition sample_env :: environment where
  "sample_env =
     \<lparr>home = Inr ''/home/pi'',
      exists_path = (\<lambda>p. Inr True),
      subprocess_run = (\<lambda>argv. Inl (PyException ''FileNotFoundError'' ''which'')),
      subprocess_Popen = (\<lambda>argv. Inr (Popen 4711)),
      utcnow = ''2024-05-01T12:00:00+00:00'',
      poll = (\<lambda>p. None),
      poll_iter = (\<lambda>i p. None),
      probe = (\<lambda>i url. if i < 2 then Inl connect_error else Inr speakers_response),
      terminate = (\<lambda>p. Inr ()),
      wait = (\<lambda>p t. Inr 0),
      kill = (\<lambda>p. Inr ()),
      http_get = (\<lambda>url. Inr volume_response)\<rparr>"

text \<open>The same device with a server that exits right after it is spawned.\<close>

definition crash_env :: environment where
  "crash_env = sample_env\<lparr>poll_iter := (\<lambda>i p. Some 1)\<rparr>"

text \<open>
  The same device where no path may be examined, and where the server ignores the
  terminate signal and cannot be killed.
\<close>

definition permission_error :: py_exception where
  "permission_error = PyException ''PermissionError'' ''[Errno 13] Permission denied''"


definition timeout_expired :: py_exception where
  "timeout_expired = PyException ''TimeoutExpired'' ''Command timed out after 5 seconds''"

definition kill_fails_env :: environment where
  "kill_fails_env =
     sample_env\<lparr>wait := (\<lambda>p t. Inl timeout_expired), kill := (\<lambda>p. Inl permission_error)\<rparr>"

text \<open>A server whose answer lists a number where the names should be.\<close>

definition malformed_response :: http_response where
  "malformed_response =
     \<lparr>status_code = 200, text_body = ''{\"speakers\": 5}'',
      json_body = Inr (JDict [(''speakers'', JInt 5)])\<rparr>"

definition malformed_env :: environment where
  "malformed_env = sample_env\<lparr>http_get := (\<lambda>url. Inr malformed_response)\<rparr>"

definition exited_poll :: "popen \<Rightarrow> int option" where
  "exited_poll p = Some 1"

definition crashed_service :: soco_cli_service where
  "crashed_service = fst (snd (start_server sample_settings crash_env init_service))"

definition running_service :: soco_cli_service where
  "running_service = fst (snd (start_server sample_settings sample_env init_service))"

text \<open>The same device with a server that lists its speakers, fails, or is unreachable.\<close>

definition speakers_env :: environment where
  "speakers_env = sample_env\<lparr>http_get := (\<lambda>url. Inr speakers_response)\<rparr>"

definition failing_env :: environment where
  "failing_env = sample_env\<lparr>http_get := (\<lambda>url. Inr error_response)\<rparr>"

definition refused_env :: environment where
  "refused_env = sample_env\<lparr>http_get := (\<lambda>url. Inl connect_error)\<rparr>"

definition sample_service :: sonos_command_service where
  "sample_service = \<lparr>soco_cli = init_service, client = None\<rparr>"

section \<open>Properties\<close>

lemma starts_with_iff: "starts_with s t = (\<exists>r. t = s @ r)"
  by (induction s t rule: starts_with.induct) auto

lemma str_in_iff: "str_in s t = (\<exists>p r. t = p @ s @ r)"
proof (induction t)
  case Nil
  then show ?case by simp
next
  case (Cons d t)
  show ?case
  proof
    assume "str_in s (d # t)"
    then consider "starts_with s (d # t)" | "str_in s t" by auto
    then show "\<exists>p r. d # t = p @ s @ r"
    proof cases
      case 1
      then obtain r where "d # t = s @ r" by (auto simp: starts_with_iff)
      then have "d # t = [] @ s @ r" by simp
      then show ?thesis by blast
    next
      case 2
      with Cons obtain p r where "t = p @ s @ r" by auto
      then have "d # t = (d # p) @ s @ r" by simp
      then show ?thesis by blast
    qed
  next
    assume "\<exists>p r. d # t = p @ s @ r"
    then obtain p r where pr: "d # t = p @ s @ r" by blast
    show "str_in s (d # t)"
    proof (cases p)
      case Nil
      with pr have "starts_with s (d # t)" by (auto simp: starts_with_iff)
      then show ?thesis by simp
    next
      case (Cons e q)
      with pr have "t = q @ s @ r" by simp
      with Cons.IH have "str_in s t" by blast
      then show ?thesis by simp
    qed
  qed
qed

lemma str_in_sublist: "str_in s t = sublist s t"
  by (simp add: str_in_iff sublist_def)

subsection \<open>The supervisor\<close>

lemma start_server_try_state:
  "start_server_try cfg env s = (r, s', evs) \<Longrightarrow>
     s' = s \<or> (\<exists>p. s' = s\<lparr>process := Some p, started_at := Some (utcnow env)\<rparr>)"
  by (auto simp: start_server_try_def Let_def split: prod.splits sum.splits)

lemma start_server_inv:
  assumes "handle_inv s"
  shows "handle_inv (fst (snd (start_server cfg env s)))"
proof -
  obtain r s' evs where t: "start_server_try cfg env (s\<lparr>is_starting := True\<rparr>) = (r, s', evs)"
    by (cases "start_server_try cfg env (s\<lparr>is_starting := True\<rparr>)") auto
  from start_server_try_state [OF t] assms have "handle_inv (s'\<lparr>is_starting := False\<rparr>)"
    by (auto simp: handle_inv_def)
  with assms t show ?thesis
    by (cases r) (auto simp: start_server_def)
qed

lemma ensure_server_running_inv:
  assumes "handle_inv s"
  shows "handle_inv (fst (ensure_server_running cfg env s))"
  using start_server_inv [OF assms, of cfg env] assms
  by (auto simp: ensure_server_running_def split: prod.splits)

lemma stop_server_inv: "handle_inv (fst (snd (stop_server env s)))" if "handle_inv s"
  using that by (auto simp: stop_server_def handle_inv_def split: option.splits prod.splits)

lemma reachable_handle_inv: "reachable cfg s \<Longrightarrow> handle_inv s"
proof (induction rule: reachable.induct)
  case init
  show ?case by (simp add: handle_inv_def init_service_def)
next
  case (start s env)
  then show ?case by (simp add: start_server_inv)
next
  case (suspended s env exe evs p)
  show ?case by (simp add: handle_inv_def)
next
  case (resumed s)
  then show ?case by (simp add: handle_inv_def)
next
  case (ensure s env)
  then show ?case by (simp add: ensure_server_running_inv)
next
  case (stop s env)
  then show ?case by (simp add: stop_server_inv)
qed




lemma start_server_spawned:
  assumes "\<not> is_running (poll env) s" and "\<not> is_starting s"
    and "get_executable_path cfg env = (Inr exe, evs0)"
    and "subprocess_Popen env (server_args cfg exe) = Inr p"
    and "readiness_loop cfg env
           (s\<lparr>is_starting := True, process := Some p, started_at := Some (utcnow env)\<rparr>)
           [0..<10] = (b, evs)"
  shows "start_server cfg env s =
           (b, s\<lparr>process := Some p, started_at := Some (utcnow env)\<rparr>,
            evs0 @ [Spawn (server_args cfg exe)] @ evs)"
  using assms by (simp add: start_server_def start_server_try_def Let_def)

lemma readiness_loop_dead:
  assumes "process s = Some p" and "\<not> process_alive env p i"
  shows "readiness_loop cfg env s (i # rest) = (False, [Sleep 1])"
  using assms by (simp add: is_running_def process_alive_def)

lemma readiness_loop_ok:
  assumes "process s = Some p" and "process_alive env p i" and "probe_ok cfg env i"
  shows "readiness_loop cfg env s (i # rest) = (True, iteration_events cfg)"
  using assms
  by (auto simp: is_running_def process_alive_def probe_ok_def iteration_events_def Let_def
      split: sum.splits)

lemma readiness_loop_idle:
  assumes "process s = Some p" and "process_alive env p i" and "\<not> probe_ok cfg env i"
  shows "readiness_loop cfg env s (i # rest) =
           (fst (readiness_loop cfg env s rest),
            iteration_events cfg @ snd (readiness_loop cfg env s rest))"
  using assms
  by (auto simp: is_running_def process_alive_def probe_ok_def iteration_events_def Let_def
      split: sum.splits prod.splits)

lemma readiness_loop_idle_prefix:
  assumes "process s = Some p"
    and "\<forall>j. i \<le> j \<and> j < k \<longrightarrow> process_alive env p j \<and> \<not> probe_ok cfg env j"
    and "i \<le> k" and "k \<le> n"
  shows "readiness_loop cfg env s [i..<n] =
           (fst (readiness_loop cfg env s [k..<n]),
            concat (replicate (k - i) (iteration_events cfg))
            @ snd (readiness_loop cfg env s [k..<n]))"
  using assms(2,3)
proof (induction "k - i" arbitrary: i)
  case 0
  then show ?case by simp
next
  case (Suc d)
  then have lt: "i < k" and d: "d = k - Suc i" by auto
  with assms(4) have "i < n" by simp
  then have u: "[i..<n] = i # [Suc i..<n]" by (rule upt_conv_Cons)
  from Suc.prems lt have idle: "process_alive env p i" "\<not> probe_ok cfg env i" by auto
  have ih: "readiness_loop cfg env s [Suc i..<n] =
           (fst (readiness_loop cfg env s [k..<n]),
            concat (replicate (k - Suc i) (iteration_events cfg))
            @ snd (readiness_loop cfg env s [k..<n]))"
    using Suc.hyps(1) [OF d] Suc.prems lt by auto
  have r: "replicate (k - i) (iteration_events cfg)
             = iteration_events cfg # replicate (k - Suc i) (iteration_events cfg)"
    using lt by (metis Suc_diff_Suc replicate_Suc)
  show ?case
    unfolding u readiness_loop_idle [OF assms(1) idle] ih r by simp
qed

subsection \<open>The sample device\<close>

lemma sample_path:
  "path_str (parse_path ''/opt//sonos-http-api-server'') = ''/opt/sonos-http-api-server''"
  by (simp add: parse_path_def path_str_def)

lemma sample_exe:
  "get_executable_path sample_settings sample_env =
     (Inr ''/opt/sonos-http-api-server'', [PathExists ''/opt/sonos-http-api-server''])"
  by (simp add: get_executable_path_def sample_settings_def sample_env_def sample_path Let_def)

lemma crash_exe:
  "get_executable_path sample_settings crash_env =
     (Inr ''/opt/sonos-http-api-server'', [PathExists ''/opt/sonos-http-api-server''])"
  by (simp add: get_executable_path_def sample_settings_def sample_env_def crash_env_def
      sample_path Let_def)

lemma init_not_running: "\<not> is_running pl init_service" "\<not> is_starting init_service"
  by (simp_all add: is_running_def init_service_def)

lemma sample_popen: "subprocess_Popen sample_env argv = Inr (Popen 4711)"
  "subprocess_Popen crash_env argv = Inr (Popen 4711)"
  by (simp_all add: sample_env_def crash_env_def)

lemma start_server_spawned_state:
  assumes "\<not> is_running (poll env) s" and "\<not> is_starting s"
    and "get_executable_path cfg env = (Inr exe, evs0)"
    and "subprocess_Popen env (server_args cfg exe) = Inr p"
  shows "fst (snd (start_server cfg env s))
           = s\<lparr>process := Some p, started_at := Some (utcnow env)\<rparr>"
proof -
  have "readiness_loop cfg env
           (s\<lparr>is_starting := True, process := Some p, started_at := Some (utcnow env)\<rparr>)
           [0..<10] = (fst (readiness_loop cfg env
           (s\<lparr>is_starting := True, process := Some p, started_at := Some (utcnow env)\<rparr>)
           [0..<10]), snd (readiness_loop cfg env
           (s\<lparr>is_starting := True, process := Some p, started_at := Some (utcnow env)\<rparr>)
           [0..<10]))"
    by (simp only: prod.collapse)
  from start_server_spawned [OF assms this] show ?thesis by (simp only: fst_conv snd_conv)
qed

lemma running_service_eq:
  "running_service = \<lparr>process = Some (Popen 4711),
     started_at = Some ''2024-05-01T12:00:00+00:00'', is_starting = False\<rparr>"
  unfolding running_service_def
    start_server_spawned_state [OF init_not_running sample_exe sample_popen(1)]
  by (simp add: init_service_def sample_env_def)

lemma crashed_service_eq:
  "crashed_service = \<lparr>process = Some (Popen 4711),
     started_at = Some ''2024-05-01T12:00:00+00:00'', is_starting = False\<rparr>"
  unfolding crashed_service_def
    start_server_spawned_state [OF init_not_running crash_exe sample_popen(2)]
  by (simp add: init_service_def sample_env_def crash_env_def)

lemma crashed_service_reachable: "reachable sample_settings crashed_service"
  unfolding crashed_service_def by (rule reachable.start [OF reachable.init])

lemma sample_alive: "process_alive sample_env p j" "\<not> process_alive crash_env p j"
  by (simp_all add: process_alive_def sample_env_def crash_env_def)

lemma sample_probe: "probe_ok sample_settings sample_env j = (\<not> j < 2)"
  by (simp add: probe_ok_def sample_env_def speakers_response_def)

text \<open>
  What \<open>stop_server\<close> does in every state the supervisor can be in, the states at the
  awaits of \<open>start_server\<close> included: all of them satisfy \<^const>\<open>handle_inv\<close>. It leaves
  no process handle and no start timestamp, so that \<open>is_running\<close> is false afterwards
  whatever the process does. It returns true when there was no handle, when the process
  ended within the wait, and when it was killed after the timeout; it returns false
  exactly when \<open>terminate\<close> or \<open>wait\<close> raised another exception; and it raises
  exactly when \<open>kill\<close> raises in the handler of the timeout.
\<close>

lemma stop_server_outcomes:
  assumes "handle_inv s" and "stop_server env s = (r, s', evs)"
  shows "process s' = None \<and> started_at s' = None \<and> \<not> is_running pl s' \<and>
    (r = Inr True \<longleftrightarrow>
       process s = None \<or>
       (\<exists>p. process s = Some p \<and> terminate env p = Inr () \<and> (\<exists>rc. wait env p 5 = Inr rc)) \<or>
       (\<exists>p e. process s = Some p \<and> exc_class e = ''TimeoutExpired'' \<and> kill env p = Inr () \<and>
              (terminate env p = Inl e \<or> terminate env p = Inr () \<and> wait env p 5 = Inl e))) \<and>
    (r = Inr False \<longleftrightarrow>
       (\<exists>p e. process s = Some p \<and> exc_class e \<noteq> ''TimeoutExpired'' \<and>
              (terminate env p = Inl e \<or> terminate env p = Inr () \<and> wait env p 5 = Inl e))) \<and>
    (r = Inl e' \<longleftrightarrow>
       (\<exists>p e. process s = Some p \<and> exc_class e = ''TimeoutExpired'' \<and> kill env p = Inl e' \<and>
              (terminate env p = Inl e \<or> terminate env p = Inr () \<and> wait env p 5 = Inl e)))"
proof (cases "process s")
  case None
  with assms show ?thesis
    by (auto simp: stop_server_def handle_inv_def is_running_def)
next
  case (Some p)
  with assms(2) have s': "s' = s\<lparr>process := None, started_at := None\<rparr>"
    and r: "r = fst (stop_server_try env p)"
    by (auto simp: stop_server_def split: prod.splits)
  from s' have c: "process s' = None \<and> started_at s' = None \<and> \<not> is_running pl s'"
    by (simp add: is_running_def)
  show ?thesis
    unfolding r using c Some
    by (auto simp: stop_server_try_def Let_def split: sum.splits if_splits)
qed

lemma suspended_service_reachable:
  "reachable sample_settings
     (init_service\<lparr>is_starting := True, process := Some (Popen 4711),
        started_at := Some (utcnow kill_fails_env)\<rparr>)"
proof -
  have e: "get_executable_path sample_settings kill_fails_env =
     (Inr ''/opt/sonos-http-api-server'', [PathExists ''/opt/sonos-http-api-server''])"
    by (simp add: get_executable_path_def sample_settings_def sample_env_def kill_fails_env_def
        sample_path Let_def)
  have p: "subprocess_Popen kill_fails_env
             (server_args sample_settings ''/opt/sonos-http-api-server'') = Inr (Popen 4711)"
    by (simp add: kill_fails_env_def sample_env_def)
  from reachable.init init_not_running(1) [of "poll kill_fails_env"] init_not_running(2) e p
  show ?thesis by (rule reachable.suspended)
qed

text \<open>
  C3: \<open>stop_server\<close> does not return true or false in every branch. When the process
  outlives the wait of five seconds and \<open>kill()\<close> then raises, the exception leaves the
  handler of \<open>TimeoutExpired\<close>, where the clause \<open>except Exception\<close> of the same
  \<open>try\<close> does not apply, and \<open>stop_server\<close> raises it to its caller; the \<open>finally\<close>
  has cleared the handle and the start timestamp.
\<close>

theorem stop_server_kill_raises:
  assumes "process s = Some p" and "terminate env p = Inr ()" and "wait env p 5 = Inl e"
    and "exc_class e = ''TimeoutExpired''" and "kill env p = Inl e'"
  shows "stop_server env s =
           (Inl e', s\<lparr>process := None, started_at := None\<rparr>,
            [Terminate p, Wait p 5, Kill p])"
  using assms by (simp add: stop_server_def stop_server_try_def Let_def)

theorem stop_server_kill_raises_witness:
  "reachable sample_settings
     (init_service\<lparr>is_starting := True, process := Some (Popen 4711),
        started_at := Some (utcnow kill_fails_env)\<rparr>) \<and>
   stop_server kill_fails_env
     (init_service\<lparr>is_starting := True, process := Some (Popen 4711),
        started_at := Some (utcnow kill_fails_env)\<rparr>) =
     (Inl permission_error,
      \<lparr>process = None, started_at = None, is_starting = True\<rparr>,
      [Terminate (Popen 4711), Wait (Popen 4711) 5, Kill (Popen 4711)])"
proof -
  let ?s = "init_service\<lparr>is_starting := True, process := Some (Popen 4711),
        started_at := Some (utcnow kill_fails_env)\<rparr>"
  have a: "process ?s = Some (Popen 4711)" by simp
  have t: "terminate kill_fails_env (Popen 4711) = Inr ()"
    and w: "wait kill_fails_env (Popen 4711) 5 = Inl timeout_expired"
    and c: "exc_class timeout_expired = ''TimeoutExpired''"
    and k: "kill kill_fails_env (Popen 4711) = Inl permission_error"
    by (simp_all add: kill_fails_env_def sample_env_def timeout_expired_def)
  from stop_server_kill_raises [OF a t w c k] suspended_service_reachable show ?thesis
    by (simp add: init_service_def)
qed

text \<open>
  C4: when \<open>is_running\<close> is true, \<open>start_server\<close> returns true, does nothing to the
  outside world (no subprocess is spawned) and leaves the service, with its one process
  handle and its start timestamp, as it was.
\<close>

theorem start_server_when_running:
  "is_running (poll env) s \<Longrightarrow> start_server cfg env s = (True, s, [])"
  by (simp add: start_server_def)

theorem start_server_when_running_witness:
  "is_running (poll sample_env) running_service \<and>
   start_server sample_settings sample_env running_service = (True, running_service, [])"
proof -
  have r: "is_running (poll sample_env) running_service"
    by (simp add: is_running_def running_service_eq sample_env_def)
  from r start_server_when_running [OF r, of sample_settings] show ?thesis by blast
qed

text \<open>
  C5: after a successful spawn the readiness loop runs at most ten iterations, each
  starting with a sleep of one second. The first iteration that finds the process exited
  makes \<open>start_server\<close> return false after that sleep; the first iteration whose probe
  answers 200 makes it return true after that probe; ten iterations with the process
  alive and no probe answering 200 make it return true.
\<close>

theorem start_server_readiness:
  assumes "\<not> is_running (poll env) s" and "\<not> is_starting s"
    and "get_executable_path cfg env = (Inr exe, evs0)"
    and "subprocess_Popen env (server_args cfg exe) = Inr p"
    and "start_server cfg env s = (b, s', evs)"
  shows "s' = s\<lparr>process := Some p, started_at := Some (utcnow env)\<rparr> \<and>
    (\<forall>k<10. (\<forall>j<k. process_alive env p j \<and> \<not> probe_ok cfg env j) \<and> \<not> process_alive env p k \<longrightarrow>
       b = False \<and>
       evs = evs0 @ [Spawn (server_args cfg exe)]
             @ concat (replicate k (iteration_events cfg)) @ [Sleep 1]) \<and>
    (\<forall>k<10. (\<forall>j<k. process_alive env p j \<and> \<not> probe_ok cfg env j) \<and>
            process_alive env p k \<and> probe_ok cfg env k \<longrightarrow>
       b = True \<and>
       evs = evs0 @ [Spawn (server_args cfg exe)]
             @ concat (replicate (Suc k) (iteration_events cfg))) \<and>
    ((\<forall>j<10. process_alive env p j \<and> \<not> probe_ok cfg env j) \<longrightarrow>
       b = True \<and>
       evs = evs0 @ [Spawn (server_args cfg exe)]
             @ concat (replicate 10 (iteration_events cfg))) \<and>
    (\<exists>n tl. evs = evs0 @ [Spawn (server_args cfg exe)]
                   @ concat (replicate n (iteration_events cfg)) @ tl \<and>
            (n \<le> 10 \<and> tl = [] \<or> n < 10 \<and> tl = [Sleep 1]))"
proof -
  define s2 where "s2 = s\<lparr>is_starting := True, process := Some p, started_at := Some (utcnow env)\<rparr>"
  define pre where "pre = evs0 @ [Spawn (server_args cfg exe)]"
  define it where "it = iteration_events cfg"
  define idle where "idle j = (process_alive env p j \<and> \<not> probe_ok cfg env j)" for j
  have p2: "process s2 = Some p" by (simp add: s2_def)
  define b2 where "b2 = fst (readiness_loop cfg env s2 [0..<10])"
  define evs2 where "evs2 = snd (readiness_loop cfg env s2 [0..<10])"
  have loop: "readiness_loop cfg env s2 [0..<10] = (b2, evs2)"
    by (simp only: b2_def evs2_def prod.collapse)
  have "start_server cfg env s =
          (b2, s\<lparr>process := Some p, started_at := Some (utcnow env)\<rparr>,
           evs0 @ [Spawn (server_args cfg exe)] @ evs2)"
    by (rule start_server_spawned [OF assms(1-4) loop [unfolded s2_def]])
  with assms(5) have "(b, s', evs) =
          (b2, s\<lparr>process := Some p, started_at := Some (utcnow env)\<rparr>,
           evs0 @ [Spawn (server_args cfg exe)] @ evs2)"
    by (simp only:)
  then have st: "s' = s\<lparr>process := Some p, started_at := Some (utcnow env)\<rparr>"
    and b: "b = b2" and evs: "evs = pre @ evs2"
    unfolding pre_def by (simp_all only: prod.inject append_assoc)
  have prefix: "(b2, evs2) = (fst (readiness_loop cfg env s2 [k..<10]),
                   concat (replicate k it) @ snd (readiness_loop cfg env s2 [k..<10]))"
    if "\<forall>j<k. idle j" and "k \<le> 10" for k
  proof -
    from that(1) have h: "\<forall>j. 0 \<le> j \<and> j < k \<longrightarrow> process_alive env p j \<and> \<not> probe_ok cfg env j"
      by (simp add: idle_def)
    have "k - 0 = k" by simp
    with readiness_loop_idle_prefix [OF p2 h le0 that(2)] show ?thesis
      unfolding loop it_def by (simp only:)
  qed
  have dead: "b2 = False \<and> evs2 = concat (replicate k it) @ [Sleep 1]"
    if "k < 10" and "\<forall>j<k. idle j" and "\<not> process_alive env p k" for k
  proof -
    from that(1) have u: "[k..<10] = k # [Suc k..<10]" by (rule upt_conv_Cons)
    from prefix [OF that(2)] that(1) show ?thesis
      unfolding u readiness_loop_dead [OF p2 that(3)] by simp
  qed
  have ok: "b2 = True \<and> evs2 = concat (replicate (Suc k) it)"
    if "k < 10" and "\<forall>j<k. idle j" and "process_alive env p k" and "probe_ok cfg env k" for k
  proof -
    from that(1) have u: "[k..<10] = k # [Suc k..<10]" by (rule upt_conv_Cons)
    have "concat (replicate (Suc k) it) = concat (replicate k it) @ it"
      by (induction k) simp_all
    with prefix [OF that(2)] that(1) show ?thesis
      unfolding u readiness_loop_ok [OF p2 that(3,4)] by (simp add: it_def)
  qed
  have never: "b2 = True \<and> evs2 = concat (replicate 10 it)" if "\<forall>j<10. idle j"
    using prefix [OF that] by simp
  have bound: "\<exists>n tl. evs2 = concat (replicate n it) @ tl \<and>
                 (n \<le> 10 \<and> tl = [] \<or> n < 10 \<and> tl = [Sleep 1])"
  proof (cases "\<forall>j<10. idle j")
    case True
    from never [OF True] show ?thesis
      by (intro exI [of _ 10] exI [of _ "[]"]) simp
  next
    case False
    define k where "k = (LEAST j. j < 10 \<and> \<not> idle j)"
    from False have ex: "\<exists>j. j < 10 \<and> \<not> idle j" by blast
    from LeastI_ex [OF ex] have k: "k < 10" "\<not> idle k" by (simp_all add: k_def)
    have before: "\<forall>j<k. idle j"
    proof (intro allI impI)
      fix j assume "j < k"
      then have "\<not> (j < 10 \<and> \<not> idle j)" unfolding k_def by (rule not_less_Least)
      with \<open>j < k\<close> k(1) show "idle j" by simp
    qed
    show ?thesis
    proof (cases "process_alive env p k")
      case False
      from dead [OF k(1) before False] k(1) show ?thesis
        by (intro exI [of _ k] exI [of _ "[Sleep 1]"]) simp
    next
      case True
      with k(2) have "probe_ok cfg env k" by (simp add: idle_def)
      from ok [OF k(1) before True this] k(1) show ?thesis
        by (intro exI [of _ "Suc k"] exI [of _ "[]"]) simp
    qed
  qed
  have c2: "\<forall>k<10. (\<forall>j<k. idle j) \<and> \<not> process_alive env p k \<longrightarrow>
       b = False \<and> evs = pre @ concat (replicate k it) @ [Sleep 1]"
    using dead b evs by blast
  have c3: "\<forall>k<10. (\<forall>j<k. idle j) \<and> process_alive env p k \<and> probe_ok cfg env k \<longrightarrow>
       b = True \<and> evs = pre @ concat (replicate (Suc k) it)"
    using ok b evs by blast
  have c4: "(\<forall>j<10. idle j) \<longrightarrow> b = True \<and> evs = pre @ concat (replicate 10 it)"
    using never b evs by blast
  have c5: "\<exists>n tl. evs = pre @ concat (replicate n it) @ tl \<and>
            (n \<le> 10 \<and> tl = [] \<or> n < 10 \<and> tl = [Sleep 1])"
    using bound evs by auto
  from st c2 c3 c4 c5 show ?thesis
    unfolding pre_def it_def idle_def append_assoc by (intro conjI)
qed

theorem start_server_readiness_witness:
  "\<not> is_running (poll sample_env) init_service \<and> \<not> is_starting init_service \<and>
   subprocess_Popen sample_env (server_args sample_settings ''/opt/sonos-http-api-server'')
     = Inr (Popen 4711) \<and>
   fst (start_server sample_settings sample_env init_service) = True \<and>
   snd (snd (start_server sample_settings sample_env init_service)) =
     [PathExists ''/opt/sonos-http-api-server'']
     @ [Spawn (server_args sample_settings ''/opt/sonos-http-api-server'')]
     @ concat (replicate 3 (iteration_events sample_settings)) \<and>
   fst (start_server sample_settings crash_env init_service) = False \<and>
   snd (snd (start_server sample_settings crash_env init_service)) =
     [PathExists ''/opt/sonos-http-api-server'']
     @ [Spawn (server_args sample_settings ''/opt/sonos-http-api-server'')]
     @ [Sleep 1]"
proof -
  let ?X = "start_server sample_settings sample_env init_service"
  let ?Y = "start_server sample_settings crash_env init_service"
  have x: "?X = (fst ?X, fst (snd ?X), snd (snd ?X))" by (simp only: prod.collapse)
  have y: "?Y = (fst ?Y, fst (snd ?Y), snd (snd ?Y))" by (simp only: prod.collapse)
  have two: "(2::nat) < 10" and zero: "(0::nat) < 10" by simp_all
  have three: "Suc 2 = 3" by simp
  from start_server_readiness [OF init_not_running sample_exe sample_popen(1) x]
  have "(\<forall>j<2. process_alive sample_env (Popen 4711) j \<and> \<not> probe_ok sample_settings sample_env j) \<and>
        process_alive sample_env (Popen 4711) 2 \<and> probe_ok sample_settings sample_env 2 \<longrightarrow>
        fst ?X = True \<and> snd (snd ?X) = [PathExists ''/opt/sonos-http-api-server'']
          @ [Spawn (server_args sample_settings ''/opt/sonos-http-api-server'')]
          @ concat (replicate (Suc 2) (iteration_events sample_settings))"
    using two by blast
  then have a: "fst ?X = True \<and> snd (snd ?X) = [PathExists ''/opt/sonos-http-api-server'']
          @ [Spawn (server_args sample_settings ''/opt/sonos-http-api-server'')]
          @ concat (replicate 3 (iteration_events sample_settings))"
    unfolding three by (simp add: sample_alive sample_probe)
  from start_server_readiness [OF init_not_running crash_exe sample_popen(2) y]
  have "(\<forall>j<0. process_alive crash_env (Popen 4711) j \<and> \<not> probe_ok sample_settings crash_env j) \<and>
        \<not> process_alive crash_env (Popen 4711) 0 \<longrightarrow>
        fst ?Y = False \<and> snd (snd ?Y) = [PathExists ''/opt/sonos-http-api-server'']
          @ [Spawn (server_args sample_settings ''/opt/sonos-http-api-server'')]
          @ concat (replicate 0 (iteration_events sample_settings)) @ [Sleep 1]"
    using zero by blast
  then have b: "fst ?Y = False \<and> snd (snd ?Y) = [PathExists ''/opt/sonos-http-api-server'']
          @ [Spawn (server_args sample_settings ''/opt/sonos-http-api-server'')] @ [Sleep 1]"
    by (simp add: sample_alive)
  from a b init_not_running(1) [of "poll sample_env"] init_not_running(2) sample_popen(1)
  show ?thesis by blast
qed




text \<open>
  C9 (amended): when \<open>is_running\<close> is false, the status has no \<open>serverUrl\<close>; its
  \<open>processId\<close> is null exactly when the service holds no process handle, and is the pid
  of the handle otherwise, also when that process has exited; \<open>get_status\<close> leaves the
  service as it was.
\<close>

theorem get_status_not_running:
  assumes "\<not> is_running pl s"
  shows "isRunning (fst (get_status cfg pl s)) = False \<and>
         serverUrl (fst (get_status cfg pl s)) = None \<and>
         processId (fst (get_status cfg pl s)) = map_option pid (process s) \<and>
         (processId (fst (get_status cfg pl s)) = None \<longleftrightarrow> process s = None) \<and>
         snd (get_status cfg pl s) = s"
  using assms by (auto simp: get_status_def split: option.splits)


theorem get_status_not_running_witness:
  "\<not> is_running exited_poll init_service \<and>
   serverUrl (fst (get_status sample_settings exited_poll init_service)) = None \<and>
   processId (fst (get_status sample_settings exited_poll init_service)) = None \<and>
   snd (get_status sample_settings exited_poll init_service) = init_service"
proof -
  have n: "\<not> is_running exited_poll init_service" by (rule init_not_running)
  have p: "process init_service = None" by (simp add: init_service_def)
  from get_status_not_running [OF n, of sample_settings] n p show ?thesis by simp
qed

theorem get_status_processId_counterexample:
  "reachable sample_settings crashed_service \<and>
   \<not> is_running exited_poll crashed_service \<and>
   processId (fst (get_status sample_settings exited_poll crashed_service)) = Some 4711"
  using crashed_service_reachable
  by (simp add: crashed_service_eq is_running_def exited_poll_def get_status_def)

subsection \<open>The dispatcher\<close>

lemma as_str_list_items_map: "as_str_list_items (map JStr xs) = Some xs"
  by (induction xs) (simp_all add: as_str_def)

lemma SocoCliResponse_typed:
  "SocoCliResponse (JStr s) (JStr a) (JList (map JStr xs)) (JInt c) (Some (JStr r)) (JStr e) =
     Inr \<lparr>speaker = s, action = a, args = xs, exit_code = c, result = r, error_msg = e\<rparr>"
  "SocoCliResponse (JStr s) (JStr a) (JList (map JStr xs)) (JInt c) None (JStr e) =
     Inr \<lparr>speaker = s, action = a, args = xs, exit_code = c, result = [], error_msg = e\<rparr>"
  by (simp_all add: SocoCliResponse_def as_str_def as_int_def as_str_list_def
      as_str_list_items_map)

lemma execute_command_try_fst:
  "fst (execute_command_try cfg env svc spk act argv) =
     (case http_get env (command_url cfg spk act argv) of
        Inl e \<Rightarrow> Inl e
      | Inr response \<Rightarrow>
          if status_code response \<noteq> 200 then
            Inr \<lparr>speaker = spk, action = act, args = argv, exit_code = status_code response,
                 result = [], error_msg = ''HTTP '' @ str_int (status_code response)\<rparr>
          else
            and_then (json_body response) (\<lambda>res.
            and_then (py_get res ''speaker'' (JStr spk)) (\<lambda>v_speaker.
            and_then (py_get res ''action'' (JStr act)) (\<lambda>v_action.
            and_then (py_get res ''args'' (JList (map JStr argv))) (\<lambda>v_args.
            and_then (py_get res ''exit_code'' (JInt 0)) (\<lambda>v_exit_code.
            and_then (py_get res ''result'' (JStr [])) (\<lambda>v_result.
            and_then (py_get res ''error_msg'' (JStr [])) (\<lambda>v_error_msg.
              SocoCliResponse v_speaker v_action v_args v_exit_code (Some v_result)
                v_error_msg))))))))"
  by (simp add: execute_command_try_def Let_def SocoCliResponse_typed get_client_def
      split: prod.splits sum.splits option.splits)

lemma execute_command_fst:
  "fst (execute_command cfg env svc spk act argv) =
     (case fst (execute_command_try cfg env
                 (svc\<lparr>soco_cli := fst (ensure_server_running cfg env (soco_cli svc))\<rparr>)
                 spk act argv) of
        Inl e \<Rightarrow> Inr \<lparr>speaker = spk, action = act, args = argv, exit_code = - 1,
                       result = [], error_msg = exc_str e\<rparr>
      | Inr r \<Rightarrow> Inr r)"
  by (simp add: execute_command_def SocoCliResponse_typed split: prod.splits sum.splits)

lemma get_speakers_fst:
  "fst (get_speakers cfg env svc) =
     (case http_get env (server_url cfg @ ''/speakers'') of
        Inl e \<Rightarrow> Inr []
      | Inr response \<Rightarrow>
          if status_code response \<noteq> 200 then Inr []
          else (case json_body response of
                  Inl e \<Rightarrow> Inr []
                | Inr res \<Rightarrow>
                    (case py_contains ''speakers'' res of
                       Inl e \<Rightarrow> Inr []
                     | Inr present \<Rightarrow>
                         if present then
                           (case py_getitem res ''speakers'' of
                              Inl e \<Rightarrow> Inr []
                            | Inr v \<Rightarrow>
                                (case py_iter v of
                                   Inl e \<Rightarrow> Inr []
                                 | Inr xs \<Rightarrow> Inr (filter truthy xs)))
                         else Inr [])))"
  by (simp add: get_speakers_def get_speakers_try_def and_then_def Let_def
      split: prod.splits sum.splits)

lemma rediscover_speakers_fst:
  "fst (rediscover_speakers cfg env svc) =
     (case http_get env (server_url cfg @ ''/rediscover'') of
        Inl e \<Rightarrow> Inr []
      | Inr response \<Rightarrow>
          if status_code response \<noteq> 200 then Inr []
          else (case json_body response of
                  Inl e \<Rightarrow> Inr []
                | Inr res \<Rightarrow>
                    (case py_contains ''speakers_discovered'' res of
                       Inl e \<Rightarrow> Inr []
                     | Inr present \<Rightarrow>
                         if present then
                           (case py_getitem res ''speakers_discovered'' of
                              Inl e \<Rightarrow> Inr []
                            | Inr v \<Rightarrow>
                                (case py_iter v of
                                   Inl e \<Rightarrow> Inr []
                                 | Inr xs \<Rightarrow> Inr (filter truthy xs)))
                         else Inr [])))"
  by (simp add: rediscover_speakers_def rediscover_speakers_try_def and_then_def Let_def
      split: prod.splits sum.splits)

lemma names_of_returns:
  "\<exists>names. names_of key outcome = Inr names \<and> JStr [] \<notin> set names \<and> (\<forall>x\<in>set names. truthy x)"
  by (auto simp: names_of_def split: sum.splits)

lemma names_of_failure:
  "names_of key (Inl e) = Inr []"
  "status_code response \<noteq> 200 \<Longrightarrow> names_of key (Inr response) = Inr []"
  "status_code response = 200 \<Longrightarrow> json_body response = Inl e \<Longrightarrow>
     names_of key (Inr response) = Inr []"
  "status_code response = 200 \<Longrightarrow> json_body response = Inr (JDict kvs) \<Longrightarrow>
     key \<notin> fst ` set kvs \<Longrightarrow> names_of key (Inr response) = Inr []"
  by (simp_all add: names_of_def)

lemma names_of_success:
  assumes "status_code response = 200" and "json_body response = Inr (JDict kvs)"
    and "map_of kvs key = Some (JList xs)"
  shows "names_of key (Inr response) = Inr (filter truthy xs)"
proof -
  from assms(3) have "key \<in> fst ` set kvs" by (metis map_of_eq_None_iff option.distinct(1))
  with assms show ?thesis by (simp add: names_of_def)
qed

lemma filter_truthy_names: "filter truthy (map JStr ns) = map JStr (filter (\<lambda>n. n \<noteq> []) ns)"
  by (induction ns) simp_all


lemma names_of_raising:
  "status_code response = 200 \<Longrightarrow> json_body response = Inr res \<Longrightarrow>
     py_contains key res \<noteq> Inr True \<Longrightarrow> names_of key (Inr response) = Inr []"
  by (auto simp: names_of_def split: sum.splits)

lemma names_of_body:
  assumes "status_code response = 200" and "json_body response = Inr res"
    and "py_contains key res = Inr True"
  shows "py_getitem res key = Inl e \<Longrightarrow> names_of key (Inr response) = Inr []"
    and "py_getitem res key = Inr v \<Longrightarrow> py_iter v = Inl e \<Longrightarrow>
           names_of key (Inr response) = Inr []"
    and "py_getitem res key = Inr v \<Longrightarrow> py_iter v = Inr xs \<Longrightarrow>
           names_of key (Inr response) = Inr (filter truthy xs)"
  using assms by (simp_all add: names_of_def)

lemma names_of_contract: "speaker_list_contract key outcome (names_of key outcome)"
  unfolding speaker_list_contract_def
proof (intro conjI allI impI)
  show "\<exists>names. names_of key outcome = Inr names \<and> JStr [] \<notin> set names"
    using names_of_returns [of key outcome] by blast
qed (auto simp: names_of_failure names_of_raising names_of_success filter_truthy_names
    names_of_body)

lemma sample_http:
  "http_get sample_env url = Inr volume_response"
  "http_get speakers_env url = Inr speakers_response"
  "http_get failing_env url = Inr error_response"
  "http_get refused_env url = Inl connect_error"
  "http_get malformed_env url = Inr malformed_response"
  by (simp_all add: sample_env_def speakers_env_def failing_env_def refused_env_def
      malformed_env_def)

lemma speaker_list_contract_raised:
  "speaker_list_contract key (Inl e) r \<Longrightarrow> r = Inr []"
  by (simp add: speaker_list_contract_def)

lemma speaker_list_contract_no_key:
  "speaker_list_contract key (Inr response) r \<Longrightarrow> status_code response = 200 \<Longrightarrow>
     json_body response = Inr (JDict kvs) \<Longrightarrow> key \<notin> fst ` set kvs \<Longrightarrow> r = Inr []"
  unfolding speaker_list_contract_def by blast

lemma speaker_list_contract_iteration_raises:
  "speaker_list_contract key (Inr response) r \<Longrightarrow> status_code response = 200 \<Longrightarrow>
     json_body response = Inr res \<Longrightarrow> py_contains key res = Inr True \<Longrightarrow>
     py_getitem res key = Inr v \<Longrightarrow> py_iter v = Inl e \<Longrightarrow> r = Inr []"
  unfolding speaker_list_contract_def by blast

lemma speaker_list_contract_names:
  "speaker_list_contract key (Inr response) r \<Longrightarrow> status_code response = 200 \<Longrightarrow>
     json_body response = Inr (JDict kvs) \<Longrightarrow> map_of kvs key = Some (JList (map JStr ns)) \<Longrightarrow>
     r = Inr (map JStr (filter (\<lambda>n. n \<noteq> []) ns))"
  unfolding speaker_list_contract_def by blast

text \<open>
  C2: \<open>execute_command\<close> always returns a response and raises nothing. When the server
  answers with a status other than 200, the response carries that status as exit code,
  the message \<open>HTTP\<close> followed by the status, and an empty result; when the request
  itself raises, the response carries exit code \<open>-1\<close>, the text of the exception as
  message, and an empty result.
\<close>

theorem execute_command_failures:
  "(\<exists>r. fst (execute_command cfg env svc spk act argv) = Inr r) \<and>
   (\<forall>response. http_get env (command_url cfg spk act argv) = Inr response \<and>
        status_code response \<noteq> 200 \<longrightarrow>
      fst (execute_command cfg env svc spk act argv) =
        Inr \<lparr>speaker = spk, action = act, args = argv, exit_code = status_code response,
             result = [], error_msg = ''HTTP '' @ str_int (status_code response)\<rparr>) \<and>
   (\<forall>e. http_get env (command_url cfg spk act argv) = Inl e \<longrightarrow>
      fst (execute_command cfg env svc spk act argv) =
        Inr \<lparr>speaker = spk, action = act, args = argv, exit_code = - 1,
             result = [], error_msg = exc_str e\<rparr>)"
proof (intro conjI allI impI)
  show "\<exists>r. fst (execute_command cfg env svc spk act argv) = Inr r"
    unfolding execute_command_fst by (simp split: sum.splits)
next
  fix response
  assume "http_get env (command_url cfg spk act argv) = Inr response \<and>
          status_code response \<noteq> 200"
  then show "fst (execute_command cfg env svc spk act argv) =
        Inr \<lparr>speaker = spk, action = act, args = argv, exit_code = status_code response,
             result = [], error_msg = ''HTTP '' @ str_int (status_code response)\<rparr>"
    unfolding execute_command_fst execute_command_try_fst by simp
next
  fix e
  assume "http_get env (command_url cfg spk act argv) = Inl e"
  then show "fst (execute_command cfg env svc spk act argv) =
        Inr \<lparr>speaker = spk, action = act, args = argv, exit_code = - 1,
             result = [], error_msg = exc_str e\<rparr>"
    unfolding execute_command_fst execute_command_try_fst by simp
qed

theorem execute_command_failures_witness:
  "fst (execute_command sample_settings failing_env sample_service ''Den'' ''volume'' [''10''])
     = Inr \<lparr>speaker = ''Den'', action = ''volume'', args = [''10''], exit_code = 500,
            result = [], error_msg = ''HTTP 500''\<rparr> \<and>
   fst (execute_command sample_settings refused_env sample_service ''Attic'' ''volume'' [])
     = Inr \<lparr>speaker = ''Attic'', action = ''volume'', args = [], exit_code = - 1,
            result = [], error_msg = ''[Errno 111] Connection refused''\<rparr>"
proof -
  have n: "str_int 500 = ''500''" by code_simp
  have s: "status_code error_response = 500" "(500::int) \<noteq> 200"
    "exc_str connect_error = ''[Errno 111] Connection refused''"
    by (simp_all add: error_response_def connect_error_def)
  from execute_command_failures
    [where cfg = sample_settings and env = failing_env and svc = sample_service
      and spk = "''Den''" and act = "''volume''" and argv = "[''10'']"] s
  have a: "fst (execute_command sample_settings failing_env sample_service ''Den'' ''volume''
             [''10''])
     = Inr \<lparr>speaker = ''Den'', action = ''volume'', args = [''10''], exit_code = 500,
            result = [], error_msg = ''HTTP '' @ str_int 500\<rparr>"
    unfolding sample_http by simp
  from execute_command_failures
    [where cfg = sample_settings and env = refused_env and svc = sample_service
      and spk = "''Attic''" and act = "''volume''" and argv = "[]"] s
  have b: "fst (execute_command sample_settings refused_env sample_service ''Attic'' ''volume'' [])
     = Inr \<lparr>speaker = ''Attic'', action = ''volume'', args = [], exit_code = - 1,
            result = [], error_msg = ''[Errno 111] Connection refused''\<rparr>"
    unfolding sample_http by simp
  from a b show ?thesis unfolding n by simp
qed

text \<open>
  C7: when the server answers 200 with a JSON object, each of \<open>speaker\<close>, \<open>action\<close>,
  \<open>args\<close>, \<open>exit_code\<close>, \<open>result\<close> and \<open>error_msg\<close> of the response is the field of
  that name in the object when the object has it, and otherwise the speaker, the action
  and the arguments of the request, \<open>0\<close>, the empty string and the empty string. The
  fields the object has are of the types of the response: strings, a list of strings and
  an integer.
\<close>

theorem execute_command_success:
  assumes "http_get env (command_url cfg spk act argv) = Inr response"
    and "status_code response = 200"
    and "json_body response = Inr (JDict kvs)"
    and "map_of kvs ''speaker'' = map_option JStr j_speaker"
    and "map_of kvs ''action'' = map_option JStr j_action"
    and "map_of kvs ''args'' = map_option (\<lambda>xs. JList (map JStr xs)) j_args"
    and "map_of kvs ''exit_code'' = map_option JInt j_exit_code"
    and "map_of kvs ''result'' = map_option JStr j_result"
    and "map_of kvs ''error_msg'' = map_option JStr j_error_msg"
  shows "fst (execute_command cfg env svc spk act argv) =
     Inr \<lparr>speaker = (case j_speaker of Some v \<Rightarrow> v | None \<Rightarrow> spk),
          action = (case j_action of Some v \<Rightarrow> v | None \<Rightarrow> act),
          args = (case j_args of Some v \<Rightarrow> v | None \<Rightarrow> argv),
          exit_code = (case j_exit_code of Some v \<Rightarrow> v | None \<Rightarrow> 0),
          result = (case j_result of Some v \<Rightarrow> v | None \<Rightarrow> []),
          error_msg = (case j_error_msg of Some v \<Rightarrow> v | None \<Rightarrow> [])\<rparr>"
proof -
  have g: "(case map_of kvs k of None \<Rightarrow> d | Some v \<Rightarrow> v) = (case jo of None \<Rightarrow> d | Some x \<Rightarrow> f x)"
    if "map_of kvs k = map_option f jo" for k d f and jo :: "'a option"
    using that by (cases jo) simp_all
  have "fst (execute_command_try cfg env
                 (svc\<lparr>soco_cli := fst (ensure_server_running cfg env (soco_cli svc))\<rparr>)
                 spk act argv) =
     Inr \<lparr>speaker = (case j_speaker of Some v \<Rightarrow> v | None \<Rightarrow> spk),
          action = (case j_action of Some v \<Rightarrow> v | None \<Rightarrow> act),
          args = (case j_args of Some v \<Rightarrow> v | None \<Rightarrow> argv),
          exit_code = (case j_exit_code of Some v \<Rightarrow> v | None \<Rightarrow> 0),
          result = (case j_result of Some v \<Rightarrow> v | None \<Rightarrow> []),
          error_msg = (case j_error_msg of Some v \<Rightarrow> v | None \<Rightarrow> [])\<rparr>"
    unfolding execute_command_try_fst
    using assms(1-3)
    apply (simp add: and_then_def g [OF assms(4)] g [OF assms(5)] g [OF assms(6)]
        g [OF assms(7)] g [OF assms(8)] g [OF assms(9)])
    apply (cases j_speaker; cases j_action; cases j_args; cases j_exit_code; cases j_result;
        cases j_error_msg)
    apply (simp_all add: SocoCliResponse_typed)
    done
  then show ?thesis unfolding execute_command_fst by simp
qed

theorem execute_command_success_witness:
  "http_get sample_env (command_url sample_settings ''Kitchen'' ''volume'' [])
     = Inr volume_response \<and>
   status_code volume_response = 200 \<and>
   fst (execute_command sample_settings sample_env sample_service ''Kitchen'' ''volume'' [])
     = Inr \<lparr>speaker = ''Kitchen'', action = ''volume'', args = [], exit_code = 0,
            result = ''25'', error_msg = []\<rparr>"
proof -
  let ?kvs = "[(''exit_code'', JInt 0), (''result'', JStr ''25'')]"
  have s: "status_code volume_response = 200" "json_body volume_response = Inr (JDict ?kvs)"
    by (simp_all add: volume_response_def)
  have m: "map_of ?kvs ''speaker'' = map_option JStr None"
    "map_of ?kvs ''action'' = map_option JStr None"
    "map_of ?kvs ''args'' = map_option (\<lambda>xs. JList (map JStr xs)) None"
    "map_of ?kvs ''exit_code'' = map_option JInt (Some 0)"
    "map_of ?kvs ''result'' = map_option JStr (Some ''25'')"
    "map_of ?kvs ''error_msg'' = map_option JStr None"
    by simp_all
  from execute_command_success [OF sample_http(1) s m, where svc = sample_service] sample_http(1) s(1)
  show ?thesis by simp
qed

text \<open>
  C10: \<open>get_speakers\<close> and \<open>rediscover_speakers\<close> always return a list, raise nothing
  and never return an empty string as a name. They return the empty list when the request
  raises, when the status is not 200, when decoding the body raises, when the body lacks
  the key \<open>speakers\<close> (\<open>speakers_discovered\<close> for the rediscovery), and when the test
  for the key, the lookup of the key or the iteration over its value raises; otherwise
  they return the listed names without the falsy entries.
\<close>

theorem speaker_lists_never_raise:
  "speaker_list_contract ''speakers'' (http_get env (server_url cfg @ ''/speakers''))
     (fst (get_speakers cfg env svc)) \<and>
   speaker_list_contract ''speakers_discovered'' (http_get env (server_url cfg @ ''/rediscover''))
     (fst (rediscover_speakers cfg env svc))"
proof -
  have "fst (get_speakers cfg env svc)
          = names_of ''speakers'' (http_get env (server_url cfg @ ''/speakers''))"
    unfolding get_speakers_fst names_of_def ..
  moreover have "fst (rediscover_speakers cfg env svc)
          = names_of ''speakers_discovered'' (http_get env (server_url cfg @ ''/rediscover''))"
    unfolding rediscover_speakers_fst names_of_def ..
  ultimately show ?thesis by (simp only: names_of_contract)
qed

theorem speaker_lists_never_raise_witness:
  "fst (get_speakers sample_settings speakers_env sample_service)
     = Inr [JStr ''Kitchen'', JStr ''Den''] \<and>
   fst (rediscover_speakers sample_settings speakers_env sample_service) = Inr [] \<and>
   fst (get_speakers sample_settings refused_env sample_service) = Inr [] \<and>
   fst (get_speakers sample_settings malformed_env sample_service) = Inr []"
proof -
  have s: "status_code speakers_response = 200"
    "json_body speakers_response =
       Inr (JDict [(''speakers'', JList (map JStr [''Kitchen'', [], ''Den'']))])"
    by (simp_all add: speakers_response_def)
  have m: "map_of [(''speakers'', JList (map JStr [''Kitchen'', [], ''Den'']))] ''speakers''
       = Some (JList (map JStr [''Kitchen'', [], ''Den'']))"
    and k: "''speakers_discovered''
       \<notin> fst ` set [(''speakers'', JList (map JStr [''Kitchen'', [], ''Den'']))]"
    by simp_all
  note c1 = speaker_lists_never_raise
    [where env = speakers_env and cfg = sample_settings and svc = sample_service,
      unfolded sample_http]
  note c2 = speaker_lists_never_raise
    [where env = refused_env and cfg = sample_settings and svc = sample_service,
      unfolded sample_http]
  have a: "fst (get_speakers sample_settings speakers_env sample_service)
     = Inr (map JStr (filter (\<lambda>n. n \<noteq> []) [''Kitchen'', [], ''Den'']))"
    by (rule speaker_list_contract_names [OF c1 [THEN conjunct1] s m])
  have b: "fst (rediscover_speakers sample_settings speakers_env sample_service) = Inr []"
    by (rule speaker_list_contract_no_key [OF c1 [THEN conjunct2] s k])
  have d: "fst (get_speakers sample_settings refused_env sample_service) = Inr []"
    by (rule speaker_list_contract_raised [OF c2 [THEN conjunct1]])
  note c3 = speaker_lists_never_raise
    [where env = malformed_env and cfg = sample_settings and svc = sample_service,
      unfolded sample_http]
  have f: "status_code malformed_response = 200"
    "json_body malformed_response = Inr (JDict [(''speakers'', JInt 5)])"
    "py_contains ''speakers'' (JDict [(''speakers'', JInt 5)]) = Inr True"
    "py_getitem (JDict [(''speakers'', JInt 5)]) ''speakers'' = Inr (JInt 5)"
    "py_iter (JInt 5) = Inl (PyException ''TypeError'' ''object is not iterable'')"
    by (simp_all add: malformed_response_def)
  have g: "fst (get_speakers sample_settings malformed_env sample_service) = Inr []"
    by (rule speaker_list_contract_iteration_raises [OF c3 [THEN conjunct1] f])
  from a b d g show ?thesis by simp
qed

subsection \<open>Concurrent calls\<close>

lemma one_at_a_time_request:
  "one_at_a_time es \<Longrightarrow> pending es = None \<Longrightarrow>
     one_at_a_time (es @ [Request t]) \<and> pending (es @ [Request t]) = Some t"
  by (induction es rule: one_at_a_time.induct) simp_all

lemma one_at_a_time_response:
  "one_at_a_time es \<Longrightarrow> pending es = Some t \<Longrightarrow>
     one_at_a_time (es @ [Response t]) \<and> pending (es @ [Response t]) = None"
  by (induction es rule: one_at_a_time.induct) simp_all

lemma dispatch_inv_init: "dispatch_inv init_dispatch"
  by (simp add: dispatch_inv_def init_dispatch_def in_lock_def)

lemma in_lock_simps [simp]:
  "\<not> in_lock Called" "\<not> in_lock Waiting" "in_lock Locked" "in_lock InFlight"
  "in_lock Recorded" "\<not> in_lock Returned"
  by (simp_all add: in_lock_def)

lemma dispatch_invI:
  assumes "request_lock s' \<longleftrightarrow> (\<exists>t. in_lock (stage_of s' t))"
    and "\<And>t t'. in_lock (stage_of s' t) \<Longrightarrow> in_lock (stage_of s' t') \<Longrightarrow> t = t'"
    and "one_at_a_time (filter is_command (wire s'))"
    and "\<And>t. pending (filter is_command (wire s')) = Some t \<longleftrightarrow> stage_of s' t = InFlight"
  shows "dispatch_inv s'"
  using assms unfolding dispatch_inv_def by blast

lemma dispatch_inv_step:
  assumes "dispatch_inv s" and "step s s'"
  shows "dispatch_inv s'"
proof -
  from assms(1) have I1: "request_lock s \<longleftrightarrow> (\<exists>t. in_lock (stage_of s t))"
    and I2: "\<And>t t'. in_lock (stage_of s t) \<Longrightarrow> in_lock (stage_of s t') \<Longrightarrow> t = t'"
    and I3: "one_at_a_time (filter is_command (wire s))"
    and I4: "\<And>t. pending (filter is_command (wire s)) = Some t \<longleftrightarrow> stage_of s t = InFlight"
    unfolding dispatch_inv_def by blast+
  have only: "\<not> in_lock (stage_of s u)" if "in_lock (stage_of s t)" and "u \<noteq> t" for t u
    using I2 that by blast
  have flight: "stage_of s u \<noteq> InFlight" if "in_lock (stage_of s t)" and "u \<noteq> t" for t u
    using only [OF that] by (auto simp: in_lock_def)
  from assms(2) show ?thesis
  proof cases
    case (probe t)
    then have "filter is_command (wire s') = filter is_command (wire s)"
      and "stage_of s' = stage_of s" and "request_lock s' = request_lock s"
      by (simp_all add: is_command_def)
    with assms(1) show ?thesis by (simp add: dispatch_inv_def)
  next
    case (ensured t)
    then have st: "stage_of s' u = (if u = t then Waiting else stage_of s u)" for u by simp
    from ensured have il: "in_lock (stage_of s' u) = in_lock (stage_of s u)" for u
      by simp
    from ensured have fl: "(stage_of s' u = InFlight) = (stage_of s u = InFlight)" for u
      by auto
    from ensured have w: "wire s' = wire s" and l: "request_lock s' = request_lock s"
      by simp_all
    show ?thesis
      by (rule dispatch_invI) (simp_all only: il fl w l I1 I3 I4, use I2 in blast)
  next
    case (acquire t)
    from acquire(3) I1 have free: "\<not> in_lock (stage_of s u)" for u by blast
    then have nofl: "stage_of s u \<noteq> InFlight" for u by (auto simp: in_lock_def)
    from acquire free have il: "in_lock (stage_of s' u) = (u = t)" for u by simp
    from acquire nofl have fl: "(stage_of s' u = InFlight) = (stage_of s u = InFlight)" for u
      by simp
    from acquire have w: "wire s' = wire s" and l: "request_lock s'" by simp_all
    show ?thesis
      by (rule dispatch_invI) (simp_all only: il fl w l I3 I4, simp_all)
  next
    case (issue t)
    then have t: "in_lock (stage_of s t)" by simp
    from issue have il: "in_lock (stage_of s' u) = in_lock (stage_of s u)" for u by simp
    from issue flight [OF t] have fl: "(stage_of s' u = InFlight) = (u = t)" for u by simp
    from issue flight [OF t] have "stage_of s u \<noteq> InFlight" for u by (cases "u = t") simp_all
    with I4 have p: "pending (filter is_command (wire s)) = None"
      by (metis not_Some_eq)
    from issue have w: "filter is_command (wire s') = filter is_command (wire s) @ [Request t]"
      and l: "request_lock s' = request_lock s"
      by (simp_all add: is_command_def)
    note r = one_at_a_time_request [OF I3 p, of t]
    show ?thesis
    proof (rule dispatch_invI)
      show "request_lock s' \<longleftrightarrow> (\<exists>u. in_lock (stage_of s' u))" by (simp only: il l I1)
      show "u = u'" if "in_lock (stage_of s' u)" "in_lock (stage_of s' u')" for u u'
        using that I2 by (simp only: il)
      show "one_at_a_time (filter is_command (wire s'))" using r by (simp only: w)
      show "pending (filter is_command (wire s')) = Some u \<longleftrightarrow> stage_of s' u = InFlight" for u
        using r by (simp only: w fl) auto
    qed
  next
    case (raise_early t)
    then have t: "in_lock (stage_of s t)" by simp
    from raise_early have il: "in_lock (stage_of s' u) = in_lock (stage_of s u)" for u by simp
    from raise_early have fl: "(stage_of s' u = InFlight) = (stage_of s u = InFlight)" for u
      by simp
    from raise_early have w: "wire s' = wire s" and l: "request_lock s' = request_lock s"
      by simp_all
    show ?thesis
      by (rule dispatch_invI) (simp_all only: il fl w l I1 I3 I4, use I2 in blast)
  next
    case (complete t)
    then have t: "in_lock (stage_of s t)" by simp
    from complete have il: "in_lock (stage_of s' u) = in_lock (stage_of s u)" for u by simp
    from complete flight [OF t] have fl: "stage_of s' u \<noteq> InFlight" for u by simp
    from complete I4 have p: "pending (filter is_command (wire s)) = Some t" by simp
    from complete have w: "filter is_command (wire s') = filter is_command (wire s) @ [Response t]"
      and l: "request_lock s' = request_lock s"
      by (simp_all add: is_command_def)
    note r = one_at_a_time_response [OF I3 p]
    show ?thesis
    proof (rule dispatch_invI)
      show "request_lock s' \<longleftrightarrow> (\<exists>u. in_lock (stage_of s' u))" by (simp only: il l I1)
      show "u = u'" if "in_lock (stage_of s' u)" "in_lock (stage_of s' u')" for u u'
        using that I2 by (simp only: il)
      show "one_at_a_time (filter is_command (wire s'))" using r by (simp only: w)
      show "pending (filter is_command (wire s')) = Some u \<longleftrightarrow> stage_of s' u = InFlight" for u
        using r fl by (simp only: w) auto
    qed
  next
    case (release t)
    then have t: "in_lock (stage_of s t)" by simp
    from release only [OF t] have il: "\<not> in_lock (stage_of s' u)" for u by simp
    from release flight [OF t] have fl: "(stage_of s' u = InFlight) = (stage_of s u = InFlight)" for u
      by simp
    from release have w: "wire s' = wire s" and l: "\<not> request_lock s'" by simp_all
    show ?thesis
      by (rule dispatch_invI) (simp_all only: fl w I3 I4, simp_all add: il l)
  qed
qed

lemma dispatching_inv: "dispatching s \<Longrightarrow> dispatch_inv s"
proof (induction rule: dispatching.induct)
  case initial
  show ?case by (rule dispatch_inv_init)
next
  case (after s s')
  then show ?case by (simp only: dispatch_inv_step)
qed

lemma busy_dispatch_dispatching: "dispatching busy_dispatch"
proof -
  define s1 where "s1 = \<lparr>stage_of = (\<lambda>t. Called)(0 := Waiting), request_lock = False,
    wire = []\<rparr>"
  define s2 where "s2 = \<lparr>stage_of = (\<lambda>t. Called)(0 := Locked), request_lock = True,
    wire = []\<rparr>"
  define s3 where "s3 = \<lparr>stage_of = (\<lambda>t. Called)(0 := InFlight), request_lock = True,
    wire = [Request 0]\<rparr>"
  have "step init_dispatch (init_dispatch\<lparr>stage_of := (stage_of init_dispatch)(0 := Waiting)\<rparr>)"
    by (rule step.ensured) (simp add: init_dispatch_def)
  moreover have "init_dispatch\<lparr>stage_of := (stage_of init_dispatch)(0 := Waiting)\<rparr> = s1"
    by (simp add: init_dispatch_def s1_def)
  ultimately have "step init_dispatch s1" by (simp only:)
  with dispatching.initial have d1: "dispatching s1" by (rule dispatching.after)
  have "step s1 (s1\<lparr>stage_of := (stage_of s1)(0 := Locked), request_lock := True\<rparr>)"
    by (rule step.acquire) (simp_all add: s1_def)
  moreover have "s1\<lparr>stage_of := (stage_of s1)(0 := Locked), request_lock := True\<rparr> = s2"
    by (simp add: s1_def s2_def)
  ultimately have "step s1 s2" by (simp only:)
  with d1 have d2: "dispatching s2" by (rule dispatching.after)
  have "step s2 (s2\<lparr>stage_of := (stage_of s2)(0 := InFlight), wire := wire s2 @ [Request 0]\<rparr>)"
    by (rule step.issue) (simp add: s2_def)
  moreover have "s2\<lparr>stage_of := (stage_of s2)(0 := InFlight), wire := wire s2 @ [Request 0]\<rparr>
      = s3"
    by (simp add: s2_def s3_def)
  ultimately have "step s2 s3" by (simp only:)
  with d2 have d3: "dispatching s3" by (rule dispatching.after)
  have "step s3 (s3\<lparr>stage_of := (stage_of s3)(1 := Waiting)\<rparr>)"
    by (rule step.ensured) (simp add: s3_def)
  moreover have "s3\<lparr>stage_of := (stage_of s3)(1 := Waiting)\<rparr> = busy_dispatch"
    by (simp add: s3_def busy_dispatch_def fun_eq_iff)
  ultimately have "step s3 busy_dispatch" by (simp only:)
  with d3 show ?thesis by (rule dispatching.after)
qed

text \<open>
  C1: in every state that concurrent calls of \<open>execute_command\<close> on one dispatcher can
  reach, at most one call has its request in flight; a call whose request is in flight or
  whose response is being recorded holds the request lock and no other call is inside the
  block; and the server sees the requests one at a time, each ended before the next is
  issued.
\<close>

theorem requests_one_at_a_time:
  "dispatching s \<Longrightarrow>
     (\<forall>t t'. stage_of s t = InFlight \<and> stage_of s t' = InFlight \<longrightarrow> t = t') \<and>
     (\<forall>t. stage_of s t = InFlight \<or> stage_of s t = Recorded \<longrightarrow> request_lock s) \<and>
     (\<forall>t t'. (stage_of s t = InFlight \<or> stage_of s t = Recorded) \<and> t' \<noteq> t \<longrightarrow>
         \<not> in_lock (stage_of s t')) \<and>
     one_at_a_time (filter is_command (wire s))"
  using dispatching_inv [of s] unfolding dispatch_inv_def in_lock_def by blast

theorem requests_one_at_a_time_witness:
  "dispatching busy_dispatch \<and> stage_of busy_dispatch 0 = InFlight \<and>
   stage_of busy_dispatch 1 = Waiting \<and> request_lock busy_dispatch \<and>
   \<not> in_lock (stage_of busy_dispatch 1) \<and>
   one_at_a_time (filter is_command (wire busy_dispatch))"
proof -
  have s: "stage_of busy_dispatch 0 = InFlight" "stage_of busy_dispatch 1 = Waiting"
    by (simp_all add: busy_dispatch_def)
  note r = requests_one_at_a_time [OF busy_dispatch_dispatching]
  from s(1) have "stage_of busy_dispatch 0 = InFlight \<or> stage_of busy_dispatch 0 = Recorded" ..
  with r [THEN conjunct2, THEN conjunct1] have l: "request_lock busy_dispatch" by blast
  from r have o: "one_at_a_time (filter is_command (wire busy_dispatch))"
    by (elim conjE)
  from s(2) have n: "\<not> in_lock (stage_of busy_dispatch 1)" by (simp add: in_lock_def)
  from busy_dispatch_dispatching s l n o show ?thesis by (intro conjI)
qed

subsection \<open>The offline classifier\<close>

text \<open>
  C6: the offline classifier answers true exactly when the lowercased message contains
  one of the eight markers as a contiguous substring, and it answers false for an absent
  and for an empty message.
\<close>

theorem offline_classifier_iff:
  "is_timeout_or_connection_error None = False \<and>
   is_timeout_or_connection_error (Some []) = False \<and>
   is_timeout_or_connection_error (Some m) =
     (sublist ''timed out'' (lower m) \<or> sublist ''timeout'' (lower m) \<or>
      sublist ''connection refused'' (lower m) \<or> sublist ''unreachable'' (lower m) \<or>
      sublist ''no route to host'' (lower m) \<or> sublist ''network is unreachable'' (lower m) \<or>
      sublist ''connecttimeouterror'' (lower m) \<or> sublist ''max retries exceeded'' (lower m))"
proof -
  have "lower [] = []" by (simp add: lower_def)
  then show ?thesis
    by (simp add: is_timeout_or_connection_error_def offline_markers_def str_in_sublist Let_def)
qed

theorem offline_classifier_iff_witness:
  "is_timeout_or_connection_error (Some ''[Errno 111] Connection refused'') \<and>
   sublist ''connection refused'' (lower ''[Errno 111] Connection refused'') \<and>
   \<not> is_timeout_or_connection_error (Some ''HTTP 500'')"
proof -
  have l: "lower ''[Errno 111] Connection refused'' = ''[errno 111] connection refused''"
    by code_simp
  have "''[errno 111] connection refused'' = ''[errno 111] '' @ ''connection refused'' @ []"
    by simp
  then have s: "sublist ''connection refused'' (lower ''[Errno 111] Connection refused'')"
    unfolding l sublist_def by blast
  have n: "\<not> is_timeout_or_connection_error (Some ''HTTP 500'')" by code_simp
  from s n offline_classifier_iff [of "''[Errno 111] Connection refused''"] show ?thesis
    by blast
qed

end
